theory Spec2Isabelle
  imports Main "HOL-Library.AList" "HOL-Library.Sublist" "HOL-Library.Word"
begin

section \<open>Values of the runtime\<close>

text \<open>
  A JavaScript string is a finite sequence of 16-bit code units. \<open>js\<close> gives the string
  of a literal of ASCII characters. The operations the program applies to strings
  (\<^verbatim>\<open>indexOf\<close>, \<^verbatim>\<open>slice\<close>, \<^verbatim>\<open>split\<close>, concatenation, equality) work unit by unit.
\<close>

type_synonym code_unit = "16 word"

type_synonym jsstring = "code_unit list"

definition unit_of :: "char \<Rightarrow> code_unit" where
  "unit_of c = word_of_nat (of_char c)"

definition js :: "string \<Rightarrow> jsstring" where
  "js s = map unit_of s"

text \<open>
  A string is well formed when it has no lone surrogate: every high surrogate is followed
  by a low one and every low surrogate follows a high one. \<^verbatim>\<open>toWellFormed\<close> replaces
  each lone surrogate by U+FFFD. It is what the UTF-8 codec does to a string: the encoder
  writes the three bytes of U+FFFD for a lone surrogate, and the decoder gives a
  well-formed string for any bytes.
\<close>

definition is_high_surrogate :: "code_unit \<Rightarrow> bool" where
  "is_high_surrogate c \<longleftrightarrow> 0xD800 \<le> c \<and> c \<le> 0xDBFF"

definition is_low_surrogate :: "code_unit \<Rightarrow> bool" where
  "is_low_surrogate c \<longleftrightarrow> 0xDC00 \<le> c \<and> c \<le> 0xDFFF"

fun toWellFormed :: "jsstring \<Rightarrow> jsstring" where
  "toWellFormed [] = []"
| "toWellFormed [c] = (if is_high_surrogate c \<or> is_low_surrogate c then [0xFFFD] else [c])"
| "toWellFormed (c # d # s) =
     (if is_high_surrogate c \<and> is_low_surrogate d then c # d # toWellFormed s
      else if is_high_surrogate c \<or> is_low_surrogate c then 0xFFFD # toWellFormed (d # s)
      else c # toWellFormed (d # s))"

fun isWellFormed :: "jsstring \<Rightarrow> bool" where
  "isWellFormed [] = True"
| "isWellFormed [c] = (\<not> is_high_surrogate c \<and> \<not> is_low_surrogate c)"
| "isWellFormed (c # d # s) =
     (if is_high_surrogate c then is_low_surrogate d \<and> isWellFormed s
      else \<not> is_low_surrogate c \<and> isWellFormed (d # s))"

text \<open>
  A thrown value. \<open>Error m\<close> is \<^verbatim>\<open>new Error(m)\<close>, the only error the program itself
  creates; \<open>SystemError\<close> is the error of a failed file-system call; the other
  constructors are the errors of the regular-expression engine, of the child process and
  of the completion service.
\<close>

datatype errno = ENOENT | ENOTDIR | EISDIR | EEXIST | EACCES

datatype error =
    Error jsstring
  | SystemError errno
  | SyntaxError jsstring
  | ExecError jsstring jsstring jsstring
  | APIError jsstring

section \<open>The file system\<close>

text \<open>
  The file system is a finite tree under the working directory. A directory holds its
  entries in the order \<^verbatim>\<open>readdir\<close> lists them. A regular file holds bytes; the model
  keeps the string they decode to, and an access mode that says whether the file can be
  opened for reading and for writing (\<open>ReadOnly\<close> stands for every reason why a write to
  a readable file is refused: no permission, a read-only file system). Directories carry
  no access mode: when the creation of an entry is refused is not modelled, and no
  statement below says that a call which creates an entry succeeds. A path is the list
  of names from the working directory down to the entry; \<open>[]\<close> is the working directory
  itself, written \<^verbatim>\<open>"."\<close> in the source.
\<close>

datatype access = ReadWrite | ReadOnly | WriteOnly | NoAccess

fun can_read :: "access \<Rightarrow> bool" where
  "can_read ReadWrite = True"
| "can_read ReadOnly = True"
| "can_read WriteOnly = False"
| "can_read NoAccess = False"

fun can_write :: "access \<Rightarrow> bool" where
  "can_write ReadWrite = True"
| "can_write ReadOnly = False"
| "can_write WriteOnly = True"
| "can_write NoAccess = False"

datatype node = File access jsstring | Dir "(jsstring \<times> node) list"

type_synonym path = "jsstring list"

fun is_Dir :: "node \<Rightarrow> bool" where
  "is_Dir (Dir es) = True"
| "is_Dir (File a c) = False"

fun is_File :: "node \<Rightarrow> bool" where
  "is_File (File a c) = True"
| "is_File (Dir es) = False"

fun fs_resolve :: "node \<Rightarrow> path \<Rightarrow> errno + node" where
  "fs_resolve nd [] = Inr nd"
| "fs_resolve (Dir es) (n # ns) =
     (case map_of es n of None \<Rightarrow> Inl ENOENT | Some c \<Rightarrow> fs_resolve c ns)"
| "fs_resolve (File a c) (n # ns) = Inl ENOTDIR"

text \<open>\<^verbatim>\<open>fs.readFile(filePath, "utf8")\<close>: the bytes of the file, decoded. The result is
  well formed whatever the file holds.\<close>

definition fs_readFile :: "node \<Rightarrow> path \<Rightarrow> errno + jsstring" where
  "fs_readFile root p =
     (case fs_resolve root p of
        Inl e \<Rightarrow> Inl e
      | Inr (File a c) \<Rightarrow> if can_read a then Inr (toWellFormed c) else Inl EACCES
      | Inr (Dir es) \<Rightarrow> Inl EISDIR)"

text \<open>\<^verbatim>\<open>fs.writeFile(filePath, content, "utf8")\<close>: creates the file or, when it can be
  opened for writing, truncates it, and stores the encoding of the content, in which a
  lone surrogate has become U+FFFD; the directory that is to hold the file must exist.\<close>

fun fs_writeFile :: "node \<Rightarrow> path \<Rightarrow> jsstring \<Rightarrow> errno + node" where
  "fs_writeFile (File a old) [] c =
     (if can_write a then Inr (File a (toWellFormed c)) else Inl EACCES)"
| "fs_writeFile (Dir es) [] c = Inl EISDIR"
| "fs_writeFile (Dir es) (n # ns) c =
     (case map_of es n of
        None \<Rightarrow>
          if ns = [] then Inr (Dir (es @ [(n, File ReadWrite (toWellFormed c))]))
          else Inl ENOENT
      | Some child \<Rightarrow>
          (case fs_writeFile child ns c of
             Inl e \<Rightarrow> Inl e
           | Inr child' \<Rightarrow> Inr (Dir (AList.update n child' es))))"
| "fs_writeFile (File a old) (n # ns) c = Inl ENOTDIR"

text \<open>\<^verbatim>\<open>fs.mkdir(dirPath, { recursive: true })\<close>: creates the directory and every missing
  ancestor; succeeds when the directory exists already.\<close>

fun new_dirs :: "path \<Rightarrow> node" where
  "new_dirs [] = Dir []"
| "new_dirs (n # ns) = Dir [(n, new_dirs ns)]"

fun fs_mkdir :: "node \<Rightarrow> path \<Rightarrow> errno + node" where
  "fs_mkdir (Dir es) [] = Inr (Dir es)"
| "fs_mkdir (File a c) [] = Inl EEXIST"
| "fs_mkdir (Dir es) (n # ns) =
     (case map_of es n of
        None \<Rightarrow> Inr (Dir (es @ [(n, new_dirs ns)]))
      | Some child \<Rightarrow>
          (case fs_mkdir child ns of
             Inl e \<Rightarrow> Inl e
           | Inr child' \<Rightarrow> Inr (Dir (AList.update n child' es))))"
| "fs_mkdir (File a c) (n # ns) = Inl ENOTDIR"

text \<open>\<^verbatim>\<open>fs.readdir(dirPath, { withFileTypes: true })\<close>: a \<^verbatim>\<open>Dirent\<close> is a name with
  the answer of \<^verbatim>\<open>isDirectory()\<close>.\<close>

record dirent =
  entry_name :: jsstring
  entry_isDirectory :: bool

definition fs_readdir :: "node \<Rightarrow> path \<Rightarrow> errno + dirent list" where
  "fs_readdir root p =
     (case fs_resolve root p of
        Inl e \<Rightarrow> Inl e
      | Inr (Dir es) \<Rightarrow> Inr (map (\<lambda>(n, nd). \<lparr>entry_name = n, entry_isDirectory = is_Dir nd\<rparr>) es)
      | Inr (File a c) \<Rightarrow> Inl ENOTDIR)"

text \<open>\<^verbatim>\<open>path.dirname\<close> and \<^verbatim>\<open>path.join\<close> on resolved paths.\<close>

definition path_dirname :: "path \<Rightarrow> path" where
  "path_dirname p = butlast p"

definition path_join :: "path \<Rightarrow> jsstring \<Rightarrow> path" where
  "path_join d n = d @ [n]"

text \<open>
  The world the tools act on: the file system \<open>fs\<close> and an opaque rest \<open>ext\<close> (the
  state of the shell and of the completion service).
\<close>

record 'x world =
  fs :: node
  ext :: 'x

section \<open>String operations\<close>

text \<open>The string operations do not look at the units, so they are written for lists of
  any elements. \<^verbatim>\<open>content.indexOf(oldText)\<close>: the least index at which \<open>oldText\<close>
  occurs, \<open>-1\<close> when it does not occur.\<close>

fun indexOf :: "'a list \<Rightarrow> 'a list \<Rightarrow> int" where
  "indexOf [] old = (if old = [] then 0 else -1)"
| "indexOf (c # cs) old =
     (if take (length old) (c # cs) = old then 0
      else (let r = indexOf cs old in if r = -1 then -1 else r + 1))"

text \<open>\<^verbatim>\<open>s.slice(b, e)\<close> and \<^verbatim>\<open>s.slice(b)\<close>: a negative index counts from the end.\<close>

definition slice_index :: "'a list \<Rightarrow> int \<Rightarrow> nat" where
  "slice_index s i = (if i < 0 then nat (max (int (length s) + i) 0) else min (nat i) (length s))"

definition slice2 :: "'a list \<Rightarrow> int \<Rightarrow> int \<Rightarrow> 'a list" where
  "slice2 s b e = take (slice_index s e - slice_index s b) (drop (slice_index s b) s)"

definition slice1 :: "'a list \<Rightarrow> int \<Rightarrow> 'a list" where
  "slice1 s b = drop (slice_index s b) s"

section \<open>The tool library (tools.ts)\<close>

definition readFile :: "path \<Rightarrow> 'x world \<Rightarrow> (error + jsstring) \<times> 'x world" where
  "readFile filePath w =
     (case fs_readFile (fs w) filePath of
        Inl e \<Rightarrow> (Inl (SystemError e), w)
      | Inr content \<Rightarrow> (Inr content, w))"

definition writeFile :: "path \<Rightarrow> jsstring \<Rightarrow> 'x world \<Rightarrow> (error + unit) \<times> 'x world" where
  "writeFile filePath content w =
     (case fs_mkdir (fs w) (path_dirname filePath) of
        Inl e \<Rightarrow> (Inl (SystemError e), w)
      | Inr r1 \<Rightarrow>
          (case fs_writeFile r1 filePath content of
             Inl e \<Rightarrow> (Inl (SystemError e), w\<lparr>fs := r1\<rparr>)
           | Inr r2 \<Rightarrow> (Inr (), w\<lparr>fs := r2\<rparr>)))"

definition editFile :: "path \<Rightarrow> jsstring \<Rightarrow> jsstring \<Rightarrow> 'x world \<Rightarrow> (error + unit) \<times> 'x world" where
  "editFile filePath oldText newText w =
     (case fs_readFile (fs w) filePath of
        Inl e \<Rightarrow> (Inl (SystemError e), w)
      | Inr content \<Rightarrow>
          (let index = indexOf content oldText in
           if index = -1 then (Inl (Error (js ''oldText not found'')), w)
           else
             (let updated = slice2 content 0 index @ newText
                              @ slice1 content (index + int (length oldText)) in
              case fs_writeFile (fs w) filePath updated of
                Inl e \<Rightarrow> (Inl (SystemError e), w)
              | Inr r' \<Rightarrow> (Inr (), w\<lparr>fs := r'\<rparr>))))"


text \<open>\<^verbatim>\<open>dirPath = "."\<close>: the default of a directory parameter is the working directory.\<close>

definition default_dir :: "path option \<Rightarrow> path" where
  "default_dir dirPath = (case dirPath of None \<Rightarrow> [] | Some d \<Rightarrow> d)"

definition listDir :: "path option \<Rightarrow> 'x world \<Rightarrow> (error + jsstring list) \<times> 'x world" where
  "listDir dirPath w =
     (case fs_readdir (fs w) (default_dir dirPath) of
        Inl e \<Rightarrow> (Inl (SystemError e), w)
      | Inr entries \<Rightarrow>
          (Inr (map (\<lambda>entry. if entry_isDirectory entry then entry_name entry @ js ''/''
                               else entry_name entry) entries), w))"

text \<open>\<^verbatim>\<open>walk\<close>: the files under \<open>dirPath\<close>, depth first, in directory order. The array
  \<open>results\<close> that the source shares between the recursive calls is an accumulator.\<close>

function walk :: "node \<Rightarrow> path \<Rightarrow> path list \<Rightarrow> error + path list" where
  "walk r dirPath results =
     (case fs_readdir r dirPath of
        Inl e \<Rightarrow> Inl (SystemError e)
      | Inr entries \<Rightarrow>
          foldl (\<lambda>acc entry.
                   case acc of
                     Inl e \<Rightarrow> Inl e
                   | Inr res \<Rightarrow>
                       (let fullPath = path_join dirPath (entry_name entry) in
                        if entry_isDirectory entry then walk r fullPath res
                        else Inr (res @ [fullPath])))
                (Inr results) entries)"
  by pat_completeness auto
termination
proof (relation "measure (\<lambda>(r, p, res). case fs_resolve r p of Inl e \<Rightarrow> 0 | Inr nd \<Rightarrow> size nd)")
  show "wf (measure (\<lambda>(r, p, res). case fs_resolve r p of Inl e \<Rightarrow> 0 | Inr nd \<Rightarrow> size nd))"
    by simp
next
  fix r :: node and dirPath :: path and results :: "path list"
    and entries :: "dirent list" and acc :: "error + path list" and entry :: dirent
    and res :: "path list" and fullPath :: path
  assume rd: "fs_readdir r dirPath = Inr entries" and mem: "entry \<in> set entries"
    and fp: "fullPath = path_join dirPath (entry_name entry)"
  have below: "fs_resolve r' (p @ q) = fs_resolve nd q" if "fs_resolve r' p = Inr nd"
    for r' nd :: node and p q :: path
    using that
  proof (induction p arbitrary: r')
    case Nil
    then show ?case by simp
  next
    case (Cons n ns)
    from Cons.prems obtain es where r': "r' = Dir es" by (cases r') auto
    from Cons.prems r' obtain child where ch: "map_of es n = Some child"
      and sub: "fs_resolve child ns = Inr nd" by (auto split: option.splits)
    show ?case using Cons.IH [OF sub] by (simp add: r' ch)
  qed
  have smaller: "size c < size (Dir es)" if "(n, c) \<in> set es"
    for n :: jsstring and c :: node and es :: "(jsstring \<times> node) list"
    using that by (induction es) auto
  from rd obtain es where here: "fs_resolve r dirPath = Inr (Dir es)"
    and ents: "entries = map (\<lambda>(n, nd). \<lparr>entry_name = n, entry_isDirectory = is_Dir nd\<rparr>) es"
    by (auto simp: fs_readdir_def split: sum.splits node.splits)
  from mem ents obtain n c where nc: "(n, c) \<in> set es" and en: "entry_name entry = n"
    by auto
  from nc have "n \<in> fst ` set es" by force
  then obtain c' where m: "map_of es n = Some c'"
    by (metis domD dom_map_of_conv_image_fst)
  then have "(n, c') \<in> set es" by (rule map_of_SomeD)
  then have lt: "size c' < size (Dir es)" by (rule smaller)
  have "fs_resolve r (dirPath @ [n]) = Inr c'"
    using below [OF here, of "[n]"] m by simp
  with lt show "((r, fullPath, res), (r, dirPath, results))
      \<in> measure (\<lambda>(r, p, res). case fs_resolve r p of Inl e \<Rightarrow> 0 | Inr nd \<Rightarrow> size nd)"
    by (simp add: fp en path_join_def here)
qed

declare walk.simps [simp del]

subsection \<open>Regular expressions\<close>

text \<open>
  A compiled pattern is its matcher: \<open>m S i\<close> is the end of the match of the pattern in
  \<open>S\<close> that starts exactly at index \<open>i\<close>, if there is one. A \<^verbatim>\<open>RegExp\<close> object carries
  the matcher, the flags \<^verbatim>\<open>g\<close> and \<^verbatim>\<open>y\<close>, and the mutable \<^verbatim>\<open>lastIndex\<close>.
\<close>

type_synonym matcher = "jsstring \<Rightarrow> nat \<Rightarrow> nat option"

record regexp =
  re_matcher :: matcher
  re_global :: bool
  re_sticky :: bool
  lastIndex :: nat

text \<open>The search of \<^verbatim>\<open>RegExpBuiltinExec\<close>: try index \<open>i\<close>, then the following ones unless
  the expression is sticky.\<close>

function exec_from :: "matcher \<Rightarrow> bool \<Rightarrow> jsstring \<Rightarrow> nat \<Rightarrow> nat option" where
  "exec_from m sticky S i =
     (if length S < i then None
      else (case m S i of
              Some e \<Rightarrow> Some e
            | None \<Rightarrow> if sticky then None else exec_from m sticky S (i + 1)))"
  by pat_completeness auto
termination
  by (relation "measure (\<lambda>(m, sticky, S, i). Suc (length S) - i)") auto

declare exec_from.simps [simp del]

text \<open>\<^verbatim>\<open>regex.test(line)\<close>: the answer and the expression with its new \<^verbatim>\<open>lastIndex\<close>.\<close>

definition regexp_test :: "regexp \<Rightarrow> jsstring \<Rightarrow> bool \<times> regexp" where
  "regexp_test regex S =
     (let stateful = (re_global regex \<or> re_sticky regex);
          i = (if stateful then lastIndex regex else 0) in
      case exec_from (re_matcher regex) (re_sticky regex) S i of
        None \<Rightarrow> (False, if stateful then regex\<lparr>lastIndex := 0\<rparr> else regex)
      | Some e \<Rightarrow> (True, if stateful then regex\<lparr>lastIndex := e\<rparr> else regex))"

text \<open>\<^verbatim>\<open>s.split(sep)\<close> for a separator of one character, and \<^verbatim>\<open>content.split("\n")\<close>.\<close>

fun split_on :: "'a \<Rightarrow> 'a list \<Rightarrow> 'a list list" where
  "split_on sep [] = [[]]"
| "split_on sep (c # cs) =
     (if c = sep then [] # split_on sep cs
      else (case split_on sep cs of
              [] \<Rightarrow> [[c]]
            | l # ls \<Rightarrow> (c # l) # ls))"

definition split_lines :: "jsstring \<Rightarrow> jsstring list" where
  "split_lines content = split_on 0x0A content"

record SearchMatch =
  match_file :: path
  match_line :: nat
  match_text :: jsstring

datatype pattern = PString jsstring | PRegExp regexp

text \<open>The body of \<^verbatim>\<open>lines.forEach\<close>, and the loop over the files.\<close>

fun search_lines ::
  "regexp \<Rightarrow> path \<Rightarrow> jsstring list \<Rightarrow> nat \<Rightarrow> SearchMatch list \<Rightarrow> regexp \<times> SearchMatch list" where
  "search_lines regex file [] index matches = (regex, matches)"
| "search_lines regex file (line # rest) index matches =
     (case regexp_test regex line of
        (hit, regex1) \<Rightarrow>
          search_lines (regex1\<lparr>lastIndex := 0\<rparr>) file rest (index + 1)
            (if hit then matches @ [\<lparr>match_file = file, match_line = index + 1, match_text = line\<rparr>]
             else matches))"

fun search_files ::
  "node \<Rightarrow> regexp \<Rightarrow> path list \<Rightarrow> SearchMatch list \<Rightarrow> regexp \<times> SearchMatch list" where
  "search_files r regex [] matches = (regex, matches)"
| "search_files r regex (file # rest) matches =
     (case fs_readFile r file of
        Inl e \<Rightarrow> search_files r regex rest matches
      | Inr content \<Rightarrow>
          (case search_lines regex file (split_lines content) 0 matches of
             (regex', matches') \<Rightarrow> search_files r regex' rest matches'))"

text \<open>\<open>new_RegExp\<close> is the engine's \<^verbatim>\<open>new RegExp(pattern, "g")\<close>: it compiles the pattern
  or throws.\<close>

definition searchInFiles ::
  "(jsstring \<Rightarrow> error + matcher) \<Rightarrow> pattern \<Rightarrow> path option \<Rightarrow> 'x world
     \<Rightarrow> (error + SearchMatch list) \<times> 'x world" where
  "searchInFiles new_RegExp pat dirPath w =
     (case (case pat of
              PRegExp regex \<Rightarrow> Inr regex
            | PString s \<Rightarrow>
                (case new_RegExp s of
                   Inl e \<Rightarrow> Inl e
                 | Inr m \<Rightarrow> Inr \<lparr>re_matcher = m, re_global = True, re_sticky = False,
                               lastIndex = 0\<rparr>)) of
        Inl e \<Rightarrow> (Inl e, w)
      | Inr regex \<Rightarrow>
          (case walk (fs w) (default_dir dirPath) [] of
             Inl e \<Rightarrow> (Inl e, w)
           | Inr files \<Rightarrow> (Inr (snd (search_files (fs w) regex files [])), w)))"

text \<open>The matcher of a pattern without syntax characters: the pattern itself.\<close>

definition literal_matcher :: "jsstring \<Rightarrow> matcher" where
  "literal_matcher pat S i =
     (if take (length pat) (drop i S) = pat then Some (i + length pat) else None)"

definition syntax_characters :: jsstring where
  "syntax_characters = js (CHR 0x5C # ''^$.*+?()[]{}|'')"

definition literal_RegExp :: "jsstring \<Rightarrow> error + matcher" where
  "literal_RegExp pat =
     (if list_ex (\<lambda>c. c \<in> set syntax_characters) pat then Inl (SyntaxError pat)
      else Inr (literal_matcher pat))"


text \<open>\<^verbatim>\<open>runCommand\<close>: \<open>execAsync\<close> is the promisified \<^verbatim>\<open>child_process.exec\<close>; it may change
  the whole world. An omitted options argument is the empty object.\<close>

datatype jsval =
    JUndefined
  | JNull
  | JBool bool
  | JNumber int
  | JString jsstring
  | JArray "jsval list"
  | JObject "(jsstring \<times> jsval) list"

definition runCommand ::
  "(jsstring \<Rightarrow> jsval \<Rightarrow> 'x world \<Rightarrow> (error + jsstring \<times> jsstring) \<times> 'x world)
     \<Rightarrow> jsstring \<Rightarrow> jsval option \<Rightarrow> 'x world \<Rightarrow> (error + jsstring \<times> jsstring) \<times> 'x world" where
  "runCommand execAsync command options w =
     execAsync command (case options of None \<Rightarrow> JObject [] | Some opts \<Rightarrow> opts) w"

section \<open>The dispatcher and the loop (index.ts)\<close>

text \<open>
  A response of the completion service is a list of content blocks; \<open>OtherBlock\<close> is a
  block whose type is neither \<^verbatim>\<open>text\<close> nor \<^verbatim>\<open>tool_use\<close>.
\<close>

record tool_use =
  tu_id :: jsstring
  tu_name :: jsstring
  tu_input :: jsval

datatype content_block = TextBlock jsstring | ToolUseBlock tool_use | OtherBlock

record tool_result =
  tool_use_id :: jsstring
  result_content :: jsstring

datatype role = User | Assistant

datatype message_content =
    Text jsstring
  | Blocks "content_block list"
  | ToolResults "tool_result list"

datatype message = Message role message_content

record ToolLogEntry =
  log_name :: jsstring
  log_input :: jsval
  log_output :: jsstring

text \<open>What a tool returns: a string, the names of \<^verbatim>\<open>listDir\<close>, the matches of
  \<^verbatim>\<open>searchInFiles\<close>, or the two streams of \<^verbatim>\<open>runCommand\<close>.\<close>

datatype tool_value =
    VString jsstring
  | VNames "jsstring list"
  | VMatches "SearchMatch list"
  | VOutput jsstring jsstring

text \<open>
  What the program takes from its runtime: the completion service
  (\<^verbatim>\<open>client.messages.create\<close>, called with the fixed model, system prompt and tool
  schema, and the conversation), the shell, the regular-expression engine,
  \<^verbatim>\<open>JSON.stringify(result, null, 2)\<close>, and the resolution of a path string against the
  working directory. Each call returns; a service or a command that never answers is
  outside the model.
\<close>

record 'x runtime =
  messages_create :: "message list \<Rightarrow> 'x world \<Rightarrow> (error + content_block list) \<times> 'x world"
  execAsync :: "jsstring \<Rightarrow> jsval \<Rightarrow> 'x world \<Rightarrow> (error + jsstring \<times> jsstring) \<times> 'x world"
  RegExp_new :: "jsstring \<Rightarrow> error + matcher"
  JSON_stringify :: "tool_value \<Rightarrow> jsstring"
  resolve_path :: "jsstring \<Rightarrow> path"

text \<open>The registry \<^verbatim>\<open>tools\<close> sent with every request: for each tool its name, the
  properties of its input with their types, and the names of the required ones (the
  descriptions are left out).\<close>

record tool_schema =
  schema_name :: jsstring
  schema_properties :: "(jsstring \<times> jsstring) list"
  schema_required :: "jsstring list"

definition tools :: "tool_schema list" where
  "tools =
     [\<lparr>schema_name = js ''readFile'',
       schema_properties = [(js ''filePath'', js ''string'')],
       schema_required = [js ''filePath'']\<rparr>,
      \<lparr>schema_name = js ''writeFile'',
       schema_properties = [(js ''filePath'', js ''string''), (js ''content'', js ''string'')],
       schema_required = [js ''filePath'', js ''content'']\<rparr>,
      \<lparr>schema_name = js ''editFile'',
       schema_properties = [(js ''filePath'', js ''string''), (js ''oldText'', js ''string''),
                            (js ''newText'', js ''string'')],
       schema_required = [js ''filePath'', js ''oldText'', js ''newText'']\<rparr>,
      \<lparr>schema_name = js ''listDir'',
       schema_properties = [(js ''dirPath'', js ''string'')],
       schema_required = []\<rparr>,
      \<lparr>schema_name = js ''searchInFiles'',
       schema_properties = [(js ''pattern'', js ''string''), (js ''dirPath'', js ''string'')],
       schema_required = [js ''pattern'']\<rparr>,
      \<lparr>schema_name = js ''runCommand'',
       schema_properties = [(js ''command'', js ''string''), (js ''options'', js ''object'')],
       schema_required = [js ''command'']\<rparr>]"

text \<open>\<^verbatim>\<open>input.key\<close> on the argument bag.\<close>

fun get_property :: "jsval \<Rightarrow> jsstring \<Rightarrow> jsval" where
  "get_property (JObject props) key = (case map_of props key of None \<Rightarrow> JUndefined | Some v \<Rightarrow> v)"
| "get_property v key = JUndefined"

fun requireString :: "jsval \<Rightarrow> jsstring \<Rightarrow> error + jsstring" where
  "requireString (JString s) name = Inr s"
| "requireString v name = Inl (Error (js ''Invalid '' @ name))"

fun normalizeToolInput :: "jsval \<Rightarrow> jsval" where
  "normalizeToolInput (JObject props) = JObject props"
| "normalizeToolInput (JArray vs) = JArray vs"
| "normalizeToolInput v = JObject []"

fun is_string :: "jsval \<Rightarrow> bool" where
  "is_string (JString s) = True"
| "is_string v = False"

fun the_string :: "jsval \<Rightarrow> jsstring" where
  "the_string (JString s) = s"
| "the_string v = []"

fun is_object :: "jsval \<Rightarrow> bool" where
  "is_object (JObject props) = True"
| "is_object (JArray vs) = True"
| "is_object v = False"

definition runTool ::
  "'x runtime \<Rightarrow> jsstring \<Rightarrow> jsval \<Rightarrow> 'x world \<Rightarrow> (error + tool_value) \<times> 'x world" where
  "runTool rt name input w =
     (if name = js ''readFile'' then
        (case requireString (get_property input (js ''filePath'')) (js ''filePath'') of
           Inl e \<Rightarrow> (Inl e, w)
         | Inr filePath \<Rightarrow>
             (case readFile (resolve_path rt filePath) w of
                (Inl e, w') \<Rightarrow> (Inl e, w')
              | (Inr text, w') \<Rightarrow> (Inr (VString text), w')))
      else if name = js ''writeFile'' then
        (case requireString (get_property input (js ''filePath'')) (js ''filePath'') of
           Inl e \<Rightarrow> (Inl e, w)
         | Inr filePath \<Rightarrow>
             (case requireString (get_property input (js ''content'')) (js ''content'') of
                Inl e \<Rightarrow> (Inl e, w)
              | Inr content \<Rightarrow>
                  (case writeFile (resolve_path rt filePath) content w of
                     (Inl e, w') \<Rightarrow> (Inl e, w')
                   | (Inr u, w') \<Rightarrow> (Inr (VString (js ''ok'')), w'))))
      else if name = js ''editFile'' then
        (case requireString (get_property input (js ''filePath'')) (js ''filePath'') of
           Inl e \<Rightarrow> (Inl e, w)
         | Inr filePath \<Rightarrow>
             (case requireString (get_property input (js ''oldText'')) (js ''oldText'') of
                Inl e \<Rightarrow> (Inl e, w)
              | Inr oldText \<Rightarrow>
                  (case requireString (get_property input (js ''newText'')) (js ''newText'') of
                     Inl e \<Rightarrow> (Inl e, w)
                   | Inr newText \<Rightarrow>
                       (case editFile (resolve_path rt filePath) oldText newText w of
                          (Inl e, w') \<Rightarrow> (Inl e, w')
                        | (Inr u, w') \<Rightarrow> (Inr (VString (js ''ok'')), w')))))
      else if name = js ''listDir'' then
        (case (if is_string (get_property input (js ''dirPath''))
               then listDir (Some (resolve_path rt (the_string (get_property input (js ''dirPath''))))) w
               else listDir None w) of
           (Inl e, w') \<Rightarrow> (Inl e, w')
         | (Inr names, w') \<Rightarrow> (Inr (VNames names), w'))
      else if name = js ''searchInFiles'' then
        (case requireString (get_property input (js ''pattern'')) (js ''pattern'') of
           Inl e \<Rightarrow> (Inl e, w)
         | Inr pat \<Rightarrow>
             (case (if is_string (get_property input (js ''dirPath''))
                    then searchInFiles (RegExp_new rt) (PString pat)
                           (Some (resolve_path rt (the_string (get_property input (js ''dirPath''))))) w
                    else searchInFiles (RegExp_new rt) (PString pat) None w) of
                (Inl e, w') \<Rightarrow> (Inl e, w')
              | (Inr matches, w') \<Rightarrow> (Inr (VMatches matches), w')))
      else if name = js ''runCommand'' then
        (case requireString (get_property input (js ''command'')) (js ''command'') of
           Inl e \<Rightarrow> (Inl e, w)
         | Inr command \<Rightarrow>
             (let options = (if is_object (get_property input (js ''options''))
                             then Some (get_property input (js ''options'')) else None) in
              case runCommand (execAsync rt) command options w of
                (Inl e, w') \<Rightarrow> (Inl e, w')
              | (Inr (stdout, stderr), w') \<Rightarrow> (Inr (VOutput stdout stderr), w')))
      else (Inl (Error (js ''Unknown tool: '' @ name)), w))"

text \<open>\<^verbatim>\<open>response.content.filter(block => block.type === 'tool_use')\<close>, and the
  \<^verbatim>\<open>text\<close> blocks filtered, mapped to their text and joined with the empty separator.\<close>

fun is_tool_use :: "content_block \<Rightarrow> bool" where
  "is_tool_use (ToolUseBlock tu) = True"
| "is_tool_use b = False"

fun the_tool_use :: "content_block \<Rightarrow> tool_use" where
  "the_tool_use (ToolUseBlock tu) = tu"
| "the_tool_use b = \<lparr>tu_id = [], tu_name = [], tu_input = JUndefined\<rparr>"

fun is_text :: "content_block \<Rightarrow> bool" where
  "is_text (TextBlock t) = True"
| "is_text b = False"

fun the_text :: "content_block \<Rightarrow> jsstring" where
  "the_text (TextBlock t) = t"
| "the_text b = []"

definition toolUses_of :: "content_block list \<Rightarrow> tool_use list" where
  "toolUses_of response = map the_tool_use (filter is_tool_use response)"

definition text_of :: "content_block list \<Rightarrow> jsstring" where
  "text_of response = concat (map the_text (filter is_text response))"

text \<open>The inner loop \<^verbatim>\<open>for (const toolUse of toolUses)\<close>. A throw of \<^verbatim>\<open>runTool\<close> is not
  caught: it ends the loop with the error. The log is what \<^verbatim>\<open>onToolLog\<close> has
  received.\<close>

fun dispatch ::
  "'x runtime \<Rightarrow> tool_use list \<Rightarrow> tool_result list \<Rightarrow> ToolLogEntry list \<Rightarrow> 'x world
     \<Rightarrow> (error + tool_result list) \<times> ToolLogEntry list \<times> 'x world" where
  "dispatch rt [] toolResults lg w = (Inr toolResults, lg, w)"
| "dispatch rt (toolUse # rest) toolResults lg w =
     (let toolInput = normalizeToolInput (tu_input toolUse) in
      case runTool rt (tu_name toolUse) toolInput w of
        (Inl e, w') \<Rightarrow> (Inl e, lg, w')
      | (Inr result, w') \<Rightarrow>
          (let content = (case result of VString s \<Rightarrow> s | v \<Rightarrow> JSON_stringify rt result) in
           dispatch rt rest
             (toolResults @ [\<lparr>tool_use_id = tu_id toolUse, result_content = content\<rparr>])
             (lg @ [\<lparr>log_name = tu_name toolUse, log_input = toolInput, log_output = content\<rparr>])
             w'))"

text \<open>
  The state of \<^verbatim>\<open>runWithTools\<close>: the conversation, the log and the world. Two more
  fields are kept for the statements only (the program does not read them): the number
  of requests sent to the completion service, and the responses received, in order.
\<close>

record 'x run_state =
  messages :: "message list"
  tool_log :: "ToolLogEntry list"
  rounds :: nat
  responses :: "content_block list list"
  world :: "'x world"

function runWithTools_from ::
  "'x runtime \<Rightarrow> nat \<Rightarrow> 'x run_state \<Rightarrow> (error + jsstring) \<times> 'x run_state" where
  "runWithTools_from rt i st =
     (if i < 6 then
        (case messages_create rt (messages st) (world st) of
           (Inl e, w1) \<Rightarrow> (Inl e, st\<lparr>rounds := rounds st + 1, world := w1\<rparr>)
         | (Inr response, w1) \<Rightarrow>
             (let st1 = st\<lparr>rounds := rounds st + 1, responses := responses st @ [response],
                           world := w1\<rparr>;
                  toolUses = toolUses_of response in
              if length toolUses = 0 then (Inr (text_of response), st1)
              else
                (case dispatch rt toolUses [] (tool_log st1) w1 of
                   (Inl e, lg, w2) \<Rightarrow> (Inl e, st1\<lparr>tool_log := lg, world := w2\<rparr>)
                 | (Inr toolResults, lg, w2) \<Rightarrow>
                     runWithTools_from rt (i + 1)
                       (st1\<lparr>messages := messages st1
                                @ [Message Assistant (Blocks response),
                                   Message User (ToolResults toolResults)],
                            tool_log := lg, world := w2\<rparr>))))
      else (Inr (js ''Tool loop limit reached''), st))"
  by pat_completeness auto
termination
  by (relation "measure (\<lambda>(rt, i, st). 6 - i)") auto

declare runWithTools_from.simps [simp del]

definition runWithTools ::
  "'x runtime \<Rightarrow> jsstring \<Rightarrow> 'x world \<Rightarrow> (error + jsstring) \<times> 'x run_state" where
  "runWithTools rt prompt w =
     runWithTools_from rt 0
       \<lparr>messages = [Message User (Text prompt)], tool_log = [], rounds = 0, responses = [],
        world = w\<rparr>"


section \<open>Notions used in the statements\<close>

subsection \<open>Occurrences of a substring\<close>

text \<open>\<open>oldText\<close> occurs in \<open>s\<close> at index \<open>j\<close>.\<close>

definition occurs_at :: "'a list \<Rightarrow> 'a list \<Rightarrow> nat \<Rightarrow> bool" where
  "occurs_at s old j = (take (length old) (drop j s) = old)"

subsection \<open>Entries of the tree\<close>


definition readable :: "node \<Rightarrow> path \<Rightarrow> bool" where
  "readable r p =
     (case fs_resolve r p of Inl e \<Rightarrow> False | Inr (File a c) \<Rightarrow> can_read a | Inr (Dir es) \<Rightarrow> False)"

definition writable :: "node \<Rightarrow> path \<Rightarrow> bool" where
  "writable r p =
     (case fs_resolve r p of Inl e \<Rightarrow> False | Inr (File a c) \<Rightarrow> can_write a | Inr (Dir es) \<Rightarrow> False)"

subsection \<open>The matches of a search\<close>

text \<open>
  What a search is to report. A line is hit when the pattern matches somewhere in it;
  the matches of a file are its hit lines, numbered from 1, with their text; the matches
  of a search are those of the files that can be read, in the order of the files. An
  expression is \<open>fresh\<close> when it is not sticky and its \<^verbatim>\<open>lastIndex\<close> is 0, as the one
  made from a pattern string is.
\<close>

definition has_match :: "matcher \<Rightarrow> jsstring \<Rightarrow> bool" where
  "has_match m l = list_ex (\<lambda>i. m l i \<noteq> None) [0..<Suc (length l)]"

definition line_matches :: "matcher \<Rightarrow> path \<Rightarrow> jsstring list \<Rightarrow> nat \<Rightarrow> SearchMatch list" where
  "line_matches m file lines start =
     map (\<lambda>(i, l). \<lparr>match_file = file, match_line = i + 1, match_text = l\<rparr>)
       (filter (\<lambda>(i, l). has_match m l) (enumerate start lines))"

definition expected_matches :: "matcher \<Rightarrow> node \<Rightarrow> path list \<Rightarrow> SearchMatch list" where
  "expected_matches m r files =
     concat (map (\<lambda>file. case fs_readFile r file of
                           Inl e \<Rightarrow> []
                         | Inr content \<Rightarrow> line_matches m file (split_lines content) 0) files)"

definition fresh :: "regexp \<Rightarrow> bool" where
  "fresh regex \<longleftrightarrow> \<not> re_sticky regex \<and> lastIndex regex = 0"

subsection \<open>Conversations and answers\<close>

text \<open>The names of the tools of the registry, and the required arguments of a tool.\<close>

definition tool_names :: "jsstring list" where
  "tool_names = map schema_name tools"

definition required_arguments :: "jsstring \<Rightarrow> jsstring list" where
  "required_arguments name = concat (map schema_required (filter (\<lambda>t. schema_name t = name) tools))"

text \<open>The first required argument of a call that is missing or not a string, if there is
  one.\<close>

definition first_invalid :: "jsstring \<Rightarrow> jsval \<Rightarrow> jsstring option" where
  "first_invalid name toolInput =
     find (\<lambda>k. \<not> is_string (get_property toolInput k)) (required_arguments name)"

text \<open>The conversation after the prompt is a sequence of rounds: an assistant turn with
  the response as returned, then a user turn whose tool results carry the identifiers of
  the tool calls of that response, one for one and in order.\<close>

fun results_follow_requests :: "message list \<Rightarrow> bool" where
  "results_follow_requests [] = True"
| "results_follow_requests (Message Assistant (Blocks response) # Message User (ToolResults results) # rest) =
     (map tool_use_id results = map tu_id (toolUses_of response) \<and> results_follow_requests rest)"
| "results_follow_requests ms = False"

text \<open>
  How an answer relates to the responses received: it is the text of the last response,
  which has no tool call while all the earlier ones have one, or it is the fixed message
  of the limit after six responses that all have a tool call. \<open>requested_names\<close> are the
  names of the tool calls of the responses, in order.
\<close>

definition answer_of_trace :: "(error + jsstring) \<Rightarrow> content_block list list \<Rightarrow> bool" where
  "answer_of_trace out rs =
     (case out of
        Inl e \<Rightarrow> True
      | Inr t \<Rightarrow>
          (rs \<noteq> [] \<and> toolUses_of (last rs) = [] \<and> t = text_of (last rs)
             \<and> list_all (\<lambda>r. toolUses_of r \<noteq> []) (butlast rs))
          \<or> (t = js ''Tool loop limit reached'' \<and> length rs = 6
             \<and> list_all (\<lambda>r. toolUses_of r \<noteq> []) rs))"

definition requested_names :: "content_block list list \<Rightarrow> jsstring list" where
  "requested_names rs = concat (map (\<lambda>r. map tu_name (toolUses_of r)) rs)"

text \<open>A completion service always requests a tool when each of its responses, whatever the
  conversation and the world, arrives and holds at least one tool call.\<close>

definition always_requests_tools :: "'x runtime \<Rightarrow> bool" where
  "always_requests_tools rt \<longleftrightarrow>
     (\<forall>msgs w. \<exists>response w1. messages_create rt msgs w = (Inr response, w1)
        \<and> toolUses_of response \<noteq> [])"

section \<open>Samples\<close>

text \<open>Small trees on which the statements below are evaluated.\<close>

definition sample_tree :: node where
  "sample_tree =
     Dir [(js ''a.txt'', File ReadWrite (js (''foo bar'' @ [CHR 0x0A] @ ''baz'' @ [CHR 0x0A] @ ''foofoo''))),
          (js ''src'', Dir [(js ''b.txt'', File ReadWrite (js ''hello world''))]),
          (js ''locked'', File NoAccess (js ''secret''))]"

definition sample_world :: "unit world" where
  "sample_world = \<lparr>fs = sample_tree, ext = ()\<rparr>"

definition one_file_world :: "unit world" where
  "one_file_world =
     \<lparr>fs = Dir [(js ''notes.txt'',
                  File ReadWrite (js (''foo bar'' @ [CHR 0x0A] @ ''baz'' @ [CHR 0x0A] @ ''foofoo'')))],
      ext = ()\<rparr>"

text \<open>A tree with a file that cannot be written, a file that cannot be read, and a file
  whose content ends with the surrogate pair of U+1F600.\<close>

definition guarded_world :: "unit world" where
  "guarded_world =
     \<lparr>fs = Dir [(js ''ro.txt'', File ReadOnly (js ''hello world'')),
                (js ''wo.txt'', File WriteOnly (js ''draft'')),
                (js ''face.txt'', File ReadWrite [0x61, 0xD83D, 0xDE00])],
      ext = ()\<rparr>"

text \<open>
  Sample runtimes. A scripted service answers with the next response of a script for each
  assistant turn already in the conversation, and fails when the script is used up; a
  constant service always gives the same response. In the sample runtime no command can
  be run, patterns are literal, the rendering of a structured result is a stand-in, and a
  path string is split at the slashes.
\<close>

definition scripted_service ::
  "content_block list list \<Rightarrow> message list \<Rightarrow> unit world
     \<Rightarrow> (error + content_block list) \<times> unit world" where
  "scripted_service script msgs w =
     (case drop ((length msgs - 1) div 2) script of
        [] \<Rightarrow> (Inl (APIError (js ''no response'')), w)
      | response # later \<Rightarrow> (Inr response, w))"

definition constant_service ::
  "content_block list \<Rightarrow> message list \<Rightarrow> unit world
     \<Rightarrow> (error + content_block list) \<times> unit world" where
  "constant_service response msgs w = (Inr response, w)"

fun sample_stringify :: "tool_value \<Rightarrow> jsstring" where
  "sample_stringify (VString s) = s"
| "sample_stringify (VNames names) = concat (map (\<lambda>n. n @ js '' '') names)"
| "sample_stringify (VMatches ms) = concat (map (\<lambda>m. match_text m @ js '' '') ms)"
| "sample_stringify (VOutput out err) = out @ err"

definition simple_resolve :: "jsstring \<Rightarrow> path" where
  "simple_resolve s = filter (\<lambda>x. x \<noteq> [] \<and> x \<noteq> js ''.'') (split_on (unit_of CHR ''/'') s)"

definition sample_runtime ::
  "(message list \<Rightarrow> unit world \<Rightarrow> (error + content_block list) \<times> unit world) \<Rightarrow> unit runtime" where
  "sample_runtime service =
     \<lparr>messages_create = service,
      execAsync = (\<lambda>command opts w. (Inl (ExecError (js ''Command failed'') [] []), w)),
      RegExp_new = literal_RegExp,
      JSON_stringify = sample_stringify,
      resolve_path = simple_resolve\<rparr>"

text \<open>Sample scripts: a response with text and two tool calls, then an answer; a call of
  \<^verbatim>\<open>readFile\<close> without arguments, then an answer; a listing; a call of a tool that is
  not registered.\<close>

definition look_then_answer :: "content_block list list" where
  "look_then_answer =
     [[TextBlock (js ''Let me look. ''),
       ToolUseBlock \<lparr>tu_id = js ''t1'', tu_name = js ''listDir'', tu_input = JObject []\<rparr>,
       ToolUseBlock \<lparr>tu_id = js ''t2'', tu_name = js ''readFile'',
                     tu_input = JObject [(js ''filePath'', JString (js ''src/b.txt''))]\<rparr>],
      [TextBlock (js ''It says ''), OtherBlock, TextBlock (js ''hello world.'')]]"

definition read_without_path :: "content_block list list" where
  "read_without_path =
     [[ToolUseBlock \<lparr>tu_id = js ''t1'', tu_name = js ''readFile'', tu_input = JObject []\<rparr>],
      [TextBlock (js ''The file could not be read.'')]]"

definition list_again :: "content_block list" where
  "list_again =
     [TextBlock (js ''Listing. ''),
      ToolUseBlock \<lparr>tu_id = js ''t1'', tu_name = js ''listDir'', tu_input = JObject []\<rparr>]"

definition call_unknown :: "content_block list" where
  "call_unknown =
     [ToolUseBlock \<lparr>tu_id = js ''t1'', tu_name = js ''deploy'', tu_input = JObject []\<rparr>]"

section \<open>Properties of code units and of the codec\<close>

lemma of_char_less: "(of_char c :: nat) < 256"
proof -
  have "(of_char c :: nat) mod 256 = of_char c" by simp
  then show ?thesis by (metis mod_less_divisor zero_less_numeral)
qed

lemma unat_unit_of: "unat (unit_of c) = of_char c"
proof -
  have "(of_char c :: nat) < 65536" using of_char_less [of c] by linarith
  then have "take_bit 16 (of_char c :: nat) = of_char c"
    using take_bit_nat_eq_self [of "of_char c" 16] by simp
  then show ?thesis by (simp add: unit_of_def unsigned_of_nat)
qed

lemma unat_unit_of_less: "unat (unit_of c) < 256"
  by (simp only: unat_unit_of of_char_less)

lemma unit_of_eq_iff [simp]: "unit_of c = unit_of d \<longleftrightarrow> c = d"
proof
  assume "unit_of c = unit_of d"
  then have "unat (unit_of c) = unat (unit_of d)" by simp
  then show "c = d" by (simp add: unat_unit_of)
qed simp

lemma js_eq_iff [simp]: "js a = js b \<longleftrightarrow> a = b"
  unfolding js_def by (simp add: inj_map_eq_map inj_on_def)

lemma js_Nil [simp]: "js [] = []"
  by (simp add: js_def)

lemma js_eq_Nil [simp]: "js s = [] \<longleftrightarrow> s = []"
  by (simp add: js_def)

lemma Nil_eq_js [simp]: "[] = js s \<longleftrightarrow> s = []"
  by (auto simp: js_def)

lemma js_Cons: "js (c # s) = unit_of c # js s"
  by (simp add: js_def)

lemma js_append [simp]: "js a @ js b = js (a @ b)"
  by (simp add: js_def)

lemma length_js [simp]: "length (js s) = length s"
  by (simp add: js_def)

lemma take_js [simp]: "take n (js s) = js (take n s)"
  by (simp add: js_def take_map)

lemma drop_js [simp]: "drop n (js s) = js (drop n s)"
  by (simp add: js_def drop_map)

lemma indexOf_js [simp]: "indexOf (js s) (js old) = indexOf s old"
proof (induction s)
  case Nil
  show ?case by simp
next
  case (Cons c cs)
  have "take (length old) (js (c # cs)) = js old \<longleftrightarrow> take (length old) (c # cs) = old"
    by (simp only: take_js js_eq_iff)
  then have "take (length old) (unit_of c # js cs) = js old \<longleftrightarrow> take (length old) (c # cs) = old"
    by (simp only: js_Cons)
  then show ?case unfolding js_Cons using Cons by simp
qed

lemma split_on_js: "split_on (unit_of c) (js s) = map js (split_on c s)"
  by (induction s) (auto simp: js_Cons split: list.splits)

lemma split_lines_js: "split_lines (js s) = map js (split_on (CHR 0x0A) s)"
proof -
  have "(0x0A :: code_unit) = unit_of (CHR 0x0A)" by (simp add: unit_of_def)
  then show ?thesis by (simp only: split_lines_def split_on_js)
qed

lemma unit_of_not_high: "\<not> is_high_surrogate (unit_of c)"
  using unat_unit_of_less [of c] by (auto simp: is_high_surrogate_def word_le_nat_alt)

lemma unit_of_not_low: "\<not> is_low_surrogate (unit_of c)"
  using unat_unit_of_less [of c] by (auto simp: is_low_surrogate_def word_le_nat_alt)

lemma not_high_and_low: "is_high_surrogate c \<Longrightarrow> \<not> is_low_surrogate c"
  by (auto simp: is_high_surrogate_def is_low_surrogate_def word_le_nat_alt)

lemma replacement_not_surrogate:
  "\<not> is_high_surrogate 0xFFFD" "\<not> is_low_surrogate 0xFFFD"
  by (simp_all add: is_high_surrogate_def is_low_surrogate_def)

lemma isWellFormed_Cons:
  "\<not> is_high_surrogate c \<Longrightarrow> \<not> is_low_surrogate c \<Longrightarrow> isWellFormed (c # s) = isWellFormed s"
  by (cases s) simp_all

lemma isWellFormed_toWellFormed [simp]: "isWellFormed (toWellFormed s)"
  by (induction s rule: toWellFormed.induct)
     (simp_all add: replacement_not_surrogate isWellFormed_Cons)

lemma toWellFormed_id: "isWellFormed s \<Longrightarrow> toWellFormed s = s"
  by (induction s rule: toWellFormed.induct) (auto split: if_splits)

lemma toWellFormed_idem [simp]: "toWellFormed (toWellFormed s) = toWellFormed s"
  by (simp add: toWellFormed_id)

lemma isWellFormed_append: "isWellFormed a \<Longrightarrow> isWellFormed b \<Longrightarrow> isWellFormed (a @ b)"
proof (induction a rule: isWellFormed.induct)
  case 1
  then show ?case by simp
next
  case (2 c)
  then show ?case by (cases b) auto
next
  case (3 c d s)
  then show ?case by (auto split: if_splits)
qed

lemma isWellFormed_js [simp]: "isWellFormed (js s)"
  by (induction s rule: induct_list012) (simp_all add: js_Cons unit_of_not_high unit_of_not_low)

lemma toWellFormed_js [simp]: "toWellFormed (js s) = js s"
  by (simp add: toWellFormed_id)

section \<open>Properties of the string operations\<close>

lemma indexOf_lower: "- 1 \<le> indexOf s old"
  by (induction s) (auto simp: Let_def)

lemma occurs_at_0: "occurs_at s old 0 = (take (length old) s = old)"
  by (simp add: occurs_at_def)

lemma occurs_at_Suc: "occurs_at (c # cs) old (Suc j) = occurs_at cs old j"
  by (simp add: occurs_at_def)

lemma indexOf_found:
  "indexOf s old \<noteq> - 1 \<Longrightarrow>
     occurs_at s old (nat (indexOf s old)) \<and> (\<forall>j < nat (indexOf s old). \<not> occurs_at s old j)"
proof (induction s)
  case Nil
  then show ?case by (auto simp: occurs_at_def split: if_splits)
next
  case (Cons c cs)
  show ?case
  proof (cases "take (length old) (c # cs) = old")
    case True
    then show ?thesis by (simp add: occurs_at_0)
  next
    case False
    with Cons.prems have ne: "indexOf cs old \<noteq> - 1" by (auto simp: Let_def split: if_splits)
    from False ne have eq: "indexOf (c # cs) old = indexOf cs old + 1" by (simp add: Let_def)
    have ge: "0 \<le> indexOf cs old" using indexOf_lower [of cs old] ne by linarith
    then have n: "nat (indexOf cs old + 1) = Suc (nat (indexOf cs old))" by linarith
    from Cons.IH [OF ne] have ih1: "occurs_at cs old (nat (indexOf cs old))"
      and ih2: "\<forall>j < nat (indexOf cs old). \<not> occurs_at cs old j" by auto
    show ?thesis
    proof (intro conjI allI impI)
      show "occurs_at (c # cs) old (nat (indexOf (c # cs) old))"
        using ih1 unfolding eq n by (simp add: occurs_at_Suc del: indexOf.simps)
    next
      fix j assume "j < nat (indexOf (c # cs) old)"
      then have j: "j < Suc (nat (indexOf cs old))" unfolding eq n .
      show "\<not> occurs_at (c # cs) old j"
      proof (cases j)
        case 0
        then show ?thesis using False by (simp add: occurs_at_0)
      next
        case (Suc k)
        then show ?thesis using j ih2 by (simp add: occurs_at_Suc)
      qed
    qed
  qed
qed

lemma indexOf_none: "indexOf s old = - 1 \<Longrightarrow> \<not> occurs_at s old j"
proof (induction s arbitrary: j)
  case Nil
  then show ?case by (auto simp: occurs_at_def split: if_splits)
next
  case (Cons c cs)
  from Cons.prems have a: "take (length old) (c # cs) \<noteq> old" and b: "indexOf cs old = - 1"
    using indexOf_lower [of cs old] by (auto simp: Let_def split: if_splits)
  show ?case
  proof (cases j)
    case 0
    then show ?thesis using a by (simp add: occurs_at_0)
  next
    case (Suc k)
    then show ?thesis using Cons.IH [OF b] by (simp add: occurs_at_Suc)
  qed
qed

lemma occurs_at_sublist: "sublist old s \<longleftrightarrow> (\<exists>j. occurs_at s old j)"
proof
  assume "sublist old s"
  then obtain ps ss where "s = ps @ old @ ss" by (auto simp: sublist_def)
  then have "occurs_at s old (length ps)" by (simp add: occurs_at_def)
  then show "\<exists>j. occurs_at s old j" ..
next
  assume "\<exists>j. occurs_at s old j"
  then obtain j where j: "take (length old) (drop j s) = old" by (auto simp: occurs_at_def)
  have "s = take j s @ take (length old) (drop j s) @ drop (length old) (drop j s)"
    by (metis append_take_drop_id)
  with j have "s = take j s @ old @ drop (length old) (drop j s)" by simp
  then show "sublist old s" unfolding sublist_def by blast
qed

lemma indexOf_minus1_iff: "indexOf s old = - 1 \<longleftrightarrow> \<not> sublist old s"
  using indexOf_none [of s old] indexOf_found [of s old] by (auto simp: occurs_at_sublist)

lemma indexOf_upper: "indexOf s old \<le> int (length s)"
  by (induction s) (auto simp: Let_def)

lemma occurs_at_split:
  "occurs_at s old j \<Longrightarrow> s = take j s @ old @ drop (j + length old) s"
proof -
  assume a: "occurs_at s old j"
  then have j: "take (length old) (drop j s) = old" by (simp add: occurs_at_def)
  have "s = take j s @ take (length old) (drop j s) @ drop (length old) (drop j s)"
    by (metis append_take_drop_id)
  with j show "s = take j s @ old @ drop (j + length old) s" by (simp add: add.commute)
qed

lemma slice2_prefix: "0 \<le> i \<Longrightarrow> slice2 s 0 i = take (nat i) s"
  by (simp add: slice2_def slice_index_def min_def)

lemma slice1_suffix: "0 \<le> i \<Longrightarrow> slice1 s i = drop (nat i) s"
  by (simp add: slice1_def slice_index_def min_def)

section \<open>Properties of the file system\<close>

lemma fs_readFile_Inr:
  "fs_readFile r p = Inr c \<longleftrightarrow>
     (\<exists>a c0. fs_resolve r p = Inr (File a c0) \<and> can_read a \<and> c = toWellFormed c0)"
  by (auto simp: fs_readFile_def split: sum.splits node.splits)

lemma fs_readFile_wellFormed: "fs_readFile r p = Inr c \<Longrightarrow> isWellFormed c"
  by (auto simp: fs_readFile_Inr)

lemma readable_iff: "readable r p \<longleftrightarrow> (\<exists>c. fs_readFile r p = Inr c)"
  by (auto simp: readable_def fs_readFile_def split: sum.splits node.splits)

lemma fs_readFile_unreadable:
  "fs_resolve r p = Inr (File a c) \<Longrightarrow> \<not> can_read a \<Longrightarrow> fs_readFile r p = Inl EACCES"
  by (simp add: fs_readFile_def)

lemma fs_write_over_file_resolve:
  "fs_resolve r p = Inr (File a c) \<Longrightarrow> can_write a \<Longrightarrow>
     \<exists>r'. fs_writeFile r p c' = Inr r' \<and> fs_resolve r' p = Inr (File a (toWellFormed c'))"
proof (induction p arbitrary: r)
  case Nil
  then show ?case by simp
next
  case (Cons n ns)
  from Cons.prems obtain es where r: "r = Dir es" by (cases r) auto
  from Cons.prems r obtain child where ch: "map_of es n = Some child"
    and res: "fs_resolve child ns = Inr (File a c)" by (auto split: option.splits)
  from Cons.IH [OF res Cons.prems(2)] obtain child' where w: "fs_writeFile child ns c' = Inr child'"
    and res': "fs_resolve child' ns = Inr (File a (toWellFormed c'))" by blast
  have "fs_writeFile r (n # ns) c' = Inr (Dir (AList.update n child' es))"
    by (simp add: r ch w)
  moreover have "fs_resolve (Dir (AList.update n child' es)) (n # ns) = Inr (File a (toWellFormed c'))"
    by (simp add: update_conv' res')
  ultimately show ?case by blast
qed

lemma fs_write_refused:
  "fs_resolve r p = Inr (File a c) \<Longrightarrow> \<not> can_write a \<Longrightarrow> fs_writeFile r p c' = Inl EACCES"
proof (induction p arbitrary: r)
  case Nil
  then show ?case by simp
next
  case (Cons n ns)
  from Cons.prems obtain es where r: "r = Dir es" by (cases r) auto
  from Cons.prems r obtain child where ch: "map_of es n = Some child"
    and res: "fs_resolve child ns = Inr (File a c)" by (auto split: option.splits)
  from Cons.IH [OF res Cons.prems(2)] show ?case by (simp add: r ch)
qed

lemma fs_write_over_file:
  assumes "fs_readFile r p = Inr c" and "writable r p"
  shows "\<exists>r'. fs_writeFile r p c' = Inr r' \<and> fs_readFile r' p = Inr (toWellFormed c')"
proof -
  from assms(1) obtain a c0 where res: "fs_resolve r p = Inr (File a c0)" and rd: "can_read a"
    by (auto simp: fs_readFile_Inr)
  from assms(2) res have "can_write a" by (simp add: writable_def)
  from fs_write_over_file_resolve [OF res this, of c'] rd show ?thesis
    by (auto simp: fs_readFile_Inr)
qed

lemma fs_write_not_writable:
  assumes "fs_readFile r p = Inr c" and "\<not> writable r p"
  shows "fs_writeFile r p c' = Inl EACCES"
proof -
  from assms(1) obtain a c0 where res: "fs_resolve r p = Inr (File a c0)"
    by (auto simp: fs_readFile_Inr)
  from assms(2) res have "\<not> can_write a" by (simp add: writable_def)
  with res show ?thesis by (rule fs_write_refused)
qed

section \<open>Editing a file\<close>

lemma readFile_Inr: "readFile p w = (Inr c, w') \<longleftrightarrow> fs_readFile (fs w) p = Inr c \<and> w' = w"
  by (auto simp: readFile_def split: sum.splits)

lemma edit_slices:
  assumes nf: "indexOf content oldText \<noteq> - 1"
  shows "slice2 content 0 (indexOf content oldText) @ newText
           @ slice1 content (indexOf content oldText + int (length oldText))
         = take (nat (indexOf content oldText)) content @ newText
           @ drop (nat (indexOf content oldText) + length oldText) content"
proof -
  have ge: "0 \<le> indexOf content oldText" using indexOf_lower [of content oldText] nf by linarith
  have s2: "slice2 content 0 (indexOf content oldText) = take (nat (indexOf content oldText)) content"
    using ge by (rule slice2_prefix)
  have "nat (indexOf content oldText + int (length oldText))
          = nat (indexOf content oldText) + length oldText" using ge by linarith
  then have s1: "slice1 content (indexOf content oldText + int (length oldText))
      = drop (nat (indexOf content oldText) + length oldText) content"
    using ge by (simp add: slice1_suffix)
  show ?thesis by (simp only: s1 s2)
qed

lemma editFile_found:
  assumes rd: "fs_readFile (fs w) p = Inr content" and nf: "indexOf content oldText \<noteq> - 1"
  shows "editFile p oldText newText w =
           (case fs_writeFile (fs w) p
                   (take (nat (indexOf content oldText)) content @ newText
                      @ drop (nat (indexOf content oldText) + length oldText) content) of
              Inl e \<Rightarrow> (Inl (SystemError e), w)
            | Inr r' \<Rightarrow> (Inr (), w\<lparr>fs := r'\<rparr>))"
  unfolding editFile_def Let_def using nf by (simp add: rd edit_slices [OF nf])

lemma editFile_succeeds:
  assumes rd: "fs_readFile (fs w) p = Inr content" and nf: "indexOf content oldText \<noteq> - 1"
    and wr: "writable (fs w) p"
  shows "\<exists>r'. editFile p oldText newText w = (Inr (), w\<lparr>fs := r'\<rparr>)
           \<and> fs_readFile r' p = Inr (toWellFormed (take (nat (indexOf content oldText)) content
                  @ newText @ drop (nat (indexOf content oldText) + length oldText) content))"
proof -
  from fs_write_over_file [OF rd wr] obtain r' where
    w: "fs_writeFile (fs w) p (take (nat (indexOf content oldText)) content @ newText
                  @ drop (nat (indexOf content oldText) + length oldText) content) = Inr r'"
    and rd2: "fs_readFile r' p = Inr (toWellFormed (take (nat (indexOf content oldText)) content
                  @ newText @ drop (nat (indexOf content oldText) + length oldText) content))"
    by blast
  have "editFile p oldText newText w = (Inr (), w\<lparr>fs := r'\<rparr>)"
    by (simp add: editFile_found [OF rd nf] w)
  with rd2 show ?thesis by blast
qed

lemma editFile_refused:
  assumes rd: "fs_readFile (fs w) p = Inr content" and nf: "indexOf content oldText \<noteq> - 1"
    and wr: "\<not> writable (fs w) p"
  shows "editFile p oldText newText w = (Inl (SystemError EACCES), w)"
  by (simp add: editFile_found [OF rd nf] fs_write_not_writable [OF rd wr])

lemma editFile_not_found:
  "fs_readFile (fs w) p = Inr content \<Longrightarrow> indexOf content oldText = - 1 \<Longrightarrow>
     editFile p oldText newText w = (Inl (Error (js ''oldText not found'')), w)"
  by (simp add: editFile_def)

lemma editFile_unreadable:
  "fs_readFile (fs w) p = Inl e \<Longrightarrow> editFile p oldText newText w = (Inl (SystemError e), w)"
  by (simp add: editFile_def)

lemma indexOf_empty: "indexOf content [] = 0"
  by (cases content) simp_all

lemma sample_read_b:
  "readFile [js ''src'', js ''b.txt''] sample_world = (Inr (js ''hello world''), sample_world)"
  by (simp add: readFile_def fs_readFile_def sample_world_def sample_tree_def)

lemma guarded_read_ro:
  "readFile [js ''ro.txt''] guarded_world = (Inr (js ''hello world''), guarded_world)"
  by (simp add: readFile_def fs_readFile_def guarded_world_def)

lemma guarded_read_face:
  "readFile [js ''face.txt''] guarded_world = (Inr [0x61, 0xD83D, 0xDE00], guarded_world)"
  by (simp add: readFile_def fs_readFile_def guarded_world_def is_high_surrogate_def
      is_low_surrogate_def)

lemma o_in_hello: "sublist (js ''o'') (js ''hello world'')"
proof -
  have "js ''hello world'' = js ''hell'' @ js ''o'' @ js '' world''" by simp
  then show ?thesis unfolding sublist_def by blast
qed

lemma sample_writable_b: "writable (fs sample_world) [js ''src'', js ''b.txt'']"
  by (simp add: writable_def sample_world_def sample_tree_def)

lemma guarded_not_writable_ro: "\<not> writable (fs guarded_world) [js ''ro.txt'']"
  by (simp add: writable_def guarded_world_def)

text \<open>
  Claim C6, as amended. When \<open>oldText\<close> occurs in the content read from the file, the
  content splits as \<open>pre @ oldText @ post\<close> with no occurrence of \<open>oldText\<close> starting
  inside \<open>pre\<close>: the first occurrence, found by equality of the substring. When the file
  can be opened for
  writing, \<open>editFile\<close> succeeds and the file then reads as the UTF-8 round trip of
  \<open>pre @ newText @ post\<close>, which is \<open>pre @ newText @ post\<close> itself when that string has no
  lone surrogate; \<open>post\<close>, with any later occurrence, is kept as it is. When the file
  cannot be opened for writing, \<open>editFile\<close> fails with the error of the file system and
  nothing is changed.
\<close>

theorem editFile_replaces_first_occurrence:
  assumes rd: "readFile p w = (Inr content, w)" and sub: "sublist oldText content"
  shows "\<exists>pre post. content = pre @ oldText @ post
           \<and> (\<forall>j < length pre. \<not> occurs_at content oldText j)
           \<and> (if writable (fs w) p
              then (\<exists>w'. editFile p oldText newText w = (Inr (), w')
                      \<and> readFile p w' = (Inr (toWellFormed (pre @ newText @ post)), w')
                      \<and> (isWellFormed (pre @ newText @ post)
                           \<longrightarrow> readFile p w' = (Inr (pre @ newText @ post), w'))
                      \<and> ext w' = ext w)
              else editFile p oldText newText w = (Inl (SystemError EACCES), w))"
proof -
  let ?i = "nat (indexOf content oldText)"
  let ?pre = "take ?i content" and ?post = "drop (?i + length oldText) content"
  from rd have rd': "fs_readFile (fs w) p = Inr content" by (simp add: readFile_Inr)
  from sub have nf: "indexOf content oldText \<noteq> - 1" by (simp add: indexOf_minus1_iff)
  from indexOf_found [OF nf] have occ: "occurs_at content oldText ?i"
    and first: "\<forall>j < ?i. \<not> occurs_at content oldText j" by auto
  have "?i \<le> length content" using indexOf_upper [of content oldText] by linarith
  then have len: "length ?pre = ?i" by simp
  have split: "content = ?pre @ oldText @ ?post" using occ by (rule occurs_at_split)
  have least: "\<forall>j < length ?pre. \<not> occurs_at content oldText j" using first len by simp
  have outcome: "if writable (fs w) p
      then (\<exists>w'. editFile p oldText newText w = (Inr (), w')
              \<and> readFile p w' = (Inr (toWellFormed (?pre @ newText @ ?post)), w')
              \<and> (isWellFormed (?pre @ newText @ ?post)
                   \<longrightarrow> readFile p w' = (Inr (?pre @ newText @ ?post), w'))
              \<and> ext w' = ext w)
      else editFile p oldText newText w = (Inl (SystemError EACCES), w)"
  proof (cases "writable (fs w) p")
    case True
    from editFile_succeeds [OF rd' nf True, of newText] obtain r' where
      ed: "editFile p oldText newText w = (Inr (), w\<lparr>fs := r'\<rparr>)"
      and rd2: "fs_readFile r' p = Inr (toWellFormed (?pre @ newText @ ?post))" by blast
    have a: "readFile p (w\<lparr>fs := r'\<rparr>)
               = (Inr (toWellFormed (?pre @ newText @ ?post)), w\<lparr>fs := r'\<rparr>)"
      by (simp add: readFile_Inr rd2)
    have b: "isWellFormed (?pre @ newText @ ?post)
        \<longrightarrow> readFile p (w\<lparr>fs := r'\<rparr>) = (Inr (?pre @ newText @ ?post), w\<lparr>fs := r'\<rparr>)"
      using a by (simp add: toWellFormed_id)
    have c: "ext (w\<lparr>fs := r'\<rparr>) = ext w" by simp
    from ed a b c have "\<exists>w'. editFile p oldText newText w = (Inr (), w')
              \<and> readFile p w' = (Inr (toWellFormed (?pre @ newText @ ?post)), w')
              \<and> (isWellFormed (?pre @ newText @ ?post)
                   \<longrightarrow> readFile p w' = (Inr (?pre @ newText @ ?post), w'))
              \<and> ext w' = ext w" by blast
    with True show ?thesis by simp
  next
    case False
    with editFile_refused [OF rd' nf False, of newText] show ?thesis by simp
  qed
  from split least outcome show ?thesis by blast
qed

theorem editFile_replaces_first_occurrence_witness:
  "readFile [js ''src'', js ''b.txt''] sample_world = (Inr (js ''hello world''), sample_world)
   \<and> sublist (js ''o'') (js ''hello world'')
   \<and> writable (fs sample_world) [js ''src'', js ''b.txt'']
   \<and> (\<exists>pre post w'. js ''hello world'' = pre @ js ''o'' @ post
        \<and> (\<forall>j < length pre. \<not> occurs_at (js ''hello world'') (js ''o'') j)
        \<and> editFile [js ''src'', js ''b.txt''] (js ''o'') (js ''0'') sample_world = (Inr (), w')
        \<and> readFile [js ''src'', js ''b.txt''] w' = (Inr (toWellFormed (pre @ js ''0'' @ post)), w')
        \<and> ext w' = ext sample_world)
   \<and> fst (editFile [js ''src'', js ''b.txt''] (js ''o'') (js ''0'') sample_world) = Inr ()
   \<and> fst (readFile [js ''src'', js ''b.txt'']
            (snd (editFile [js ''src'', js ''b.txt''] (js ''o'') (js ''0'') sample_world)))
       = Inr (js ''hell0 world'')
   \<and> readFile [js ''ro.txt''] guarded_world = (Inr (js ''hello world''), guarded_world)
   \<and> \<not> writable (fs guarded_world) [js ''ro.txt'']
   \<and> editFile [js ''ro.txt''] (js ''o'') (js ''0'') guarded_world
       = (Inl (SystemError EACCES), guarded_world)"
proof -
  note rd = sample_read_b and sub = o_in_hello and wr = sample_writable_b
  from editFile_replaces_first_occurrence [OF rd sub, of "js ''0''"] wr
  have ex: "\<exists>pre post w'. js ''hello world'' = pre @ js ''o'' @ post
        \<and> (\<forall>j < length pre. \<not> occurs_at (js ''hello world'') (js ''o'') j)
        \<and> editFile [js ''src'', js ''b.txt''] (js ''o'') (js ''0'') sample_world = (Inr (), w')
        \<and> readFile [js ''src'', js ''b.txt''] w' = (Inr (toWellFormed (pre @ js ''0'' @ post)), w')
        \<and> ext w' = ext sample_world"
    by (simp only: if_True) blast
  have ed: "editFile [js ''src'', js ''b.txt''] (js ''o'') (js ''0'') sample_world
      = (Inr (), sample_world\<lparr>fs :=
          Dir [(js ''a.txt'', File ReadWrite (js (''foo bar'' @ [CHR 0x0A] @ ''baz'' @ [CHR 0x0A] @ ''foofoo''))),
               (js ''src'', Dir [(js ''b.txt'', File ReadWrite (js ''hell0 world''))]),
               (js ''locked'', File NoAccess (js ''secret''))]\<rparr>)"
    by (simp add: editFile_def fs_readFile_def sample_world_def sample_tree_def slice2_def
        slice1_def slice_index_def Let_def)
  have e1: "fst (editFile [js ''src'', js ''b.txt''] (js ''o'') (js ''0'') sample_world) = Inr ()"
    by (simp only: ed fst_conv)
  have e2: "fst (readFile [js ''src'', js ''b.txt'']
            (snd (editFile [js ''src'', js ''b.txt''] (js ''o'') (js ''0'') sample_world)))
       = Inr (js ''hell0 world'')"
    unfolding ed by (simp add: readFile_def fs_readFile_def)
  note rd2 = guarded_read_ro and nw = guarded_not_writable_ro
  from editFile_replaces_first_occurrence [OF rd2 sub, of "js ''0''"] nw
  have refused: "editFile [js ''ro.txt''] (js ''o'') (js ''0'') guarded_world
       = (Inl (SystemError EACCES), guarded_world)"
    by (simp only: if_False) blast
  from rd sub wr ex e1 e2 rd2 nw refused show ?thesis by (intro conjI)
qed

text \<open>
  Claim C6 as stated fails. When \<open>oldText\<close> is the first half of a surrogate pair, the
  second half is left alone in the updated string and is written as U+FFFD: what follows
  the occurrence is not kept. And a file that can be read but not written is not changed
  at all: the edit fails.
\<close>

theorem editFile_replaces_first_occurrence_counterexample:
  "readFile [js ''face.txt''] guarded_world = (Inr [0x61, 0xD83D, 0xDE00], guarded_world)
   \<and> [0x61, 0xD83D, 0xDE00] = [0x61] @ [0xD83D] @ [0xDE00 :: code_unit]
   \<and> fst (editFile [js ''face.txt''] [0xD83D] (js ''x'') guarded_world) = Inr ()
   \<and> fst (readFile [js ''face.txt'']
            (snd (editFile [js ''face.txt''] [0xD83D] (js ''x'') guarded_world)))
       = Inr [0x61, 0x78, 0xFFFD]
   \<and> [0x61, 0x78, 0xFFFD] \<noteq> [0x61] @ js ''x'' @ [0xDE00 :: code_unit]
   \<and> readFile [js ''ro.txt''] guarded_world = (Inr (js ''hello world''), guarded_world)
   \<and> sublist (js ''o'') (js ''hello world'')
   \<and> editFile [js ''ro.txt''] (js ''o'') (js ''0'') guarded_world
       = (Inl (SystemError EACCES), guarded_world)"
proof -
  have ed: "editFile [js ''face.txt''] [0xD83D] (js ''x'') guarded_world
      = (Inr (), guarded_world\<lparr>fs :=
           Dir [(js ''ro.txt'', File ReadOnly (js ''hello world'')),
                (js ''wo.txt'', File WriteOnly (js ''draft'')),
                (js ''face.txt'', File ReadWrite [0x61, 0x78, 0xFFFD])]\<rparr>)"
    by (simp add: editFile_def fs_readFile_def guarded_world_def slice2_def
        slice1_def slice_index_def Let_def is_high_surrogate_def is_low_surrogate_def
        js_def unit_of_def)
  have e1: "fst (editFile [js ''face.txt''] [0xD83D] (js ''x'') guarded_world) = Inr ()"
    by (simp only: ed fst_conv)
  have e2: "fst (readFile [js ''face.txt'']
            (snd (editFile [js ''face.txt''] [0xD83D] (js ''x'') guarded_world)))
       = Inr [0x61, 0x78, 0xFFFD]"
    unfolding ed
    by (simp add: readFile_def fs_readFile_def is_high_surrogate_def is_low_surrogate_def)
  have ne: "[0x61, 0x78, 0xFFFD] \<noteq> [0x61] @ js ''x'' @ [0xDE00 :: code_unit]"
    by (simp add: js_def)
  have sp: "[0x61, 0xD83D, 0xDE00] = [0x61] @ [0xD83D] @ [0xDE00 :: code_unit]" by simp
  have refused: "editFile [js ''ro.txt''] (js ''o'') (js ''0'') guarded_world
       = (Inl (SystemError EACCES), guarded_world)"
    by (simp add: editFile_def fs_readFile_def guarded_world_def slice2_def
        slice1_def slice_index_def Let_def)
  from guarded_read_face sp e1 e2 ne guarded_read_ro o_in_hello refused
  show ?thesis by (intro conjI)
qed

text \<open>
  Claim C7. \<open>editFile\<close> fails with the error \<^verbatim>\<open>oldText not found\<close> (the spec's
  NotFoundError) exactly when the file can be read and \<open>oldText\<close> is not a substring of
  its content; the world is then unchanged. After a successful edit the file can be read,
  and when \<open>oldText\<close> no longer occurs in it, the same edit applied again fails with that
  error.
\<close>

theorem editFile_not_found_exactly:
  "(fst (editFile p oldText newText w) = Inl (Error (js ''oldText not found''))
      \<longleftrightarrow> (\<exists>content. readFile p w = (Inr content, w) \<and> \<not> sublist oldText content))
   \<and> (fst (editFile p oldText newText w) = Inl (Error (js ''oldText not found''))
      \<longrightarrow> snd (editFile p oldText newText w) = w)
   \<and> (\<forall>w'. editFile p oldText newText w = (Inr (), w')
      \<longrightarrow> (\<exists>content'. readFile p w' = (Inr content', w')
            \<and> (\<not> sublist oldText content'
               \<longrightarrow> editFile p oldText newText w' = (Inl (Error (js ''oldText not found'')), w'))))"
proof (cases "fs_readFile (fs w) p")
  case (Inl e)
  then show ?thesis by (simp add: editFile_unreadable readFile_Inr)
next
  case (Inr content)
  show ?thesis
  proof (cases "indexOf content oldText = - 1")
    case True
    then show ?thesis using Inr
      by (simp add: editFile_not_found indexOf_minus1_iff readFile_Inr)
  next
    case False
    then have sub: "sublist oldText content" by (simp add: indexOf_minus1_iff)
    show ?thesis
    proof (cases "writable (fs w) p")
      case wr: True
      from editFile_succeeds [OF Inr False wr, of newText] obtain r' content' where
        ed: "editFile p oldText newText w = (Inr (), w\<lparr>fs := r'\<rparr>)"
        and rd2: "fs_readFile r' p = Inr content'" by blast
      have third: "\<not> sublist oldText content'
          \<longrightarrow> editFile p oldText newText (w\<lparr>fs := r'\<rparr>)
                = (Inl (Error (js ''oldText not found'')), w\<lparr>fs := r'\<rparr>)"
        using rd2 by (simp add: editFile_not_found indexOf_minus1_iff)
      show ?thesis using ed Inr sub rd2 third by (simp add: readFile_Inr)
    next
      case nw: False
      have ed: "editFile p oldText newText w = (Inl (SystemError EACCES), w)"
        using Inr False nw by (rule editFile_refused)
      show ?thesis using ed Inr sub by (simp add: readFile_Inr)
    qed
  qed
qed

theorem editFile_not_found_exactly_witness:
  "editFile [js ''src'', js ''b.txt''] (js ''hello'') (js ''bye'') sample_world
     = (Inr (), sample_world\<lparr>fs :=
          Dir [(js ''a.txt'', File ReadWrite (js (''foo bar'' @ [CHR 0x0A] @ ''baz'' @ [CHR 0x0A] @ ''foofoo''))),
               (js ''src'', Dir [(js ''b.txt'', File ReadWrite (js ''bye world''))]),
               (js ''locked'', File NoAccess (js ''secret''))]\<rparr>)
   \<and> readFile [js ''src'', js ''b.txt'']
        (snd (editFile [js ''src'', js ''b.txt''] (js ''hello'') (js ''bye'') sample_world))
       = (Inr (js ''bye world''),
          snd (editFile [js ''src'', js ''b.txt''] (js ''hello'') (js ''bye'') sample_world))
   \<and> \<not> sublist (js ''hello'') (js ''bye world'')
   \<and> editFile [js ''src'', js ''b.txt''] (js ''hello'') (js ''bye'')
        (snd (editFile [js ''src'', js ''b.txt''] (js ''hello'') (js ''bye'') sample_world))
       = (Inl (Error (js ''oldText not found'')),
          snd (editFile [js ''src'', js ''b.txt''] (js ''hello'') (js ''bye'') sample_world))"
proof -
  let ?w' = "sample_world\<lparr>fs :=
          Dir [(js ''a.txt'', File ReadWrite (js (''foo bar'' @ [CHR 0x0A] @ ''baz'' @ [CHR 0x0A] @ ''foofoo''))),
               (js ''src'', Dir [(js ''b.txt'', File ReadWrite (js ''bye world''))]),
               (js ''locked'', File NoAccess (js ''secret''))]\<rparr>"
  have ed: "editFile [js ''src'', js ''b.txt''] (js ''hello'') (js ''bye'') sample_world = (Inr (), ?w')"
    by (simp add: editFile_def fs_readFile_def sample_world_def sample_tree_def slice2_def
        slice1_def slice_index_def Let_def)
  have rd: "readFile [js ''src'', js ''b.txt''] ?w' = (Inr (js ''bye world''), ?w')"
    by (simp add: readFile_def fs_readFile_def)
  have ns: "\<not> sublist (js ''hello'') (js ''bye world'')"
    using indexOf_minus1_iff [of "js ''bye world''" "js ''hello''"] by simp
  from editFile_not_found_exactly [of "[js ''src'', js ''b.txt'']" "js ''hello''" "js ''bye''" sample_world] ed
  obtain content' where "readFile [js ''src'', js ''b.txt''] ?w' = (Inr content', ?w')"
    and "\<not> sublist (js ''hello'') content' \<longrightarrow>
         editFile [js ''src'', js ''b.txt''] (js ''hello'') (js ''bye'') ?w'
           = (Inl (Error (js ''oldText not found'')), ?w')"
    by blast
  with rd ns have e2: "editFile [js ''src'', js ''b.txt''] (js ''hello'') (js ''bye'') ?w'
      = (Inl (Error (js ''oldText not found'')), ?w')" by simp
  have s: "snd (editFile [js ''src'', js ''b.txt''] (js ''hello'') (js ''bye'') sample_world) = ?w'"
    by (simp only: ed snd_conv)
  show ?thesis unfolding s using ed rd ns e2 by (intro conjI)
qed

lemma toWellFormed_lone_js:
  assumes "is_high_surrogate c \<or> is_low_surrogate c"
  shows "toWellFormed (c # js s) = 0xFFFD # js s"
proof (cases s)
  case Nil
  with assms show ?thesis by auto
next
  case (Cons d t)
  have "toWellFormed (c # unit_of d # js t) = 0xFFFD # toWellFormed (unit_of d # js t)"
    using assms by (simp add: unit_of_not_low)
  also have "toWellFormed (unit_of d # js t) = unit_of d # js t"
    using toWellFormed_js [of "d # t"] by (simp only: js_Cons)
  finally show ?thesis by (simp add: Cons js_Cons)
qed

text \<open>
  Claim C10, as amended. With the empty \<open>oldText\<close>, \<open>editFile\<close> on a readable file
  never fails with the error \<^verbatim>\<open>oldText not found\<close>: the empty string is found at
  index 0. When the file
  can be opened for writing, the edit succeeds and the file then reads as the UTF-8 round
  trip of \<open>newText\<close> followed by the original content, which is \<open>newText\<close> followed by the
  original content when \<open>newText\<close> has no lone surrogate. When the file cannot be opened
  for writing, the edit fails with the error of the file system and nothing is changed.
\<close>

theorem editFile_empty_oldText:
  assumes "readFile p w = (Inr content, w)"
  shows "fst (editFile p [] newText w) \<noteq> Inl (Error (js ''oldText not found''))
     \<and> (if writable (fs w) p
        then (\<exists>w'. editFile p [] newText w = (Inr (), w')
                \<and> readFile p w' = (Inr (toWellFormed (newText @ content)), w')
                \<and> (isWellFormed newText \<longrightarrow> readFile p w' = (Inr (newText @ content), w')))
        else editFile p [] newText w = (Inl (SystemError EACCES), w))"
proof -
  from assms have rd: "fs_readFile (fs w) p = Inr content" by (simp add: readFile_Inr)
  have wf: "isWellFormed content" using rd by (rule fs_readFile_wellFormed)
  have nf: "indexOf content [] \<noteq> - 1" by (simp add: indexOf_empty)
  show ?thesis
  proof (cases "writable (fs w) p")
    case True
    from editFile_succeeds [OF rd nf True, of newText] obtain r' where
      ed: "editFile p [] newText w = (Inr (), w\<lparr>fs := r'\<rparr>)"
      and rd2: "fs_readFile r' p = Inr (toWellFormed (newText @ content))"
      by (auto simp: indexOf_empty)
    have a: "readFile p (w\<lparr>fs := r'\<rparr>) = (Inr (toWellFormed (newText @ content)), w\<lparr>fs := r'\<rparr>)"
      by (simp add: readFile_Inr rd2)
    have b: "isWellFormed newText
        \<longrightarrow> readFile p (w\<lparr>fs := r'\<rparr>) = (Inr (newText @ content), w\<lparr>fs := r'\<rparr>)"
      using a wf by (simp add: toWellFormed_id isWellFormed_append)
    from ed a b True show ?thesis by simp
  next
    case False
    with editFile_refused [OF rd nf False, of newText] show ?thesis by simp
  qed
qed

theorem editFile_empty_oldText_witness:
  "readFile [js ''src'', js ''b.txt''] sample_world = (Inr (js ''hello world''), sample_world)
   \<and> writable (fs sample_world) [js ''src'', js ''b.txt'']
   \<and> isWellFormed (js ''> '')
   \<and> (\<exists>w'. editFile [js ''src'', js ''b.txt''] [] (js ''> '') sample_world = (Inr (), w')
           \<and> readFile [js ''src'', js ''b.txt''] w' = (Inr (js ''> hello world''), w'))
   \<and> readFile [js ''ro.txt''] guarded_world = (Inr (js ''hello world''), guarded_world)
   \<and> \<not> writable (fs guarded_world) [js ''ro.txt'']
   \<and> editFile [js ''ro.txt''] [] (js ''> '') guarded_world
       = (Inl (SystemError EACCES), guarded_world)"
proof -
  have wf: "isWellFormed (js ''> '')" by simp
  from editFile_empty_oldText [OF sample_read_b, of "js ''> ''"] sample_writable_b
  have ok: "\<exists>w'. editFile [js ''src'', js ''b.txt''] [] (js ''> '') sample_world = (Inr (), w')
           \<and> readFile [js ''src'', js ''b.txt''] w' = (Inr (js ''> hello world''), w')"
    by simp
  from editFile_empty_oldText [OF guarded_read_ro, of "js ''> ''"] guarded_not_writable_ro
  have refused: "editFile [js ''ro.txt''] [] (js ''> '') guarded_world
       = (Inl (SystemError EACCES), guarded_world)"
    by simp
  from sample_read_b sample_writable_b wf ok guarded_read_ro guarded_not_writable_ro refused
  show ?thesis by (intro conjI)
qed

text \<open>
  Claim C10 as stated fails: on a readable file that cannot be written the edit does not
  succeed, and a lone surrogate given as \<open>newText\<close> is not what the file holds
  afterwards.
\<close>

theorem editFile_empty_oldText_counterexample:
  "readFile [js ''ro.txt''] guarded_world = (Inr (js ''hello world''), guarded_world)
   \<and> editFile [js ''ro.txt''] [] (js ''> '') guarded_world
       = (Inl (SystemError EACCES), guarded_world)
   \<and> readFile [js ''src'', js ''b.txt''] sample_world = (Inr (js ''hello world''), sample_world)
   \<and> fst (editFile [js ''src'', js ''b.txt''] [] [0xD800] sample_world) = Inr ()
   \<and> fst (readFile [js ''src'', js ''b.txt'']
            (snd (editFile [js ''src'', js ''b.txt''] [] [0xD800] sample_world)))
       = Inr ([0xFFFD] @ js ''hello world'')
   \<and> [0xFFFD] @ js ''hello world'' \<noteq> [0xD800] @ js ''hello world''"
proof -
  have refused: "editFile [js ''ro.txt''] [] (js ''> '') guarded_world
       = (Inl (SystemError EACCES), guarded_world)"
    by (simp add: editFile_def fs_readFile_def guarded_world_def slice2_def
        slice1_def slice_index_def Let_def indexOf_empty)
  have ed: "editFile [js ''src'', js ''b.txt''] [] [0xD800] sample_world
      = (Inr (), sample_world\<lparr>fs :=
          Dir [(js ''a.txt'', File ReadWrite (js (''foo bar'' @ [CHR 0x0A] @ ''baz'' @ [CHR 0x0A] @ ''foofoo''))),
               (js ''src'', Dir [(js ''b.txt'', File ReadWrite (0xFFFD # js ''hello world''))]),
               (js ''locked'', File NoAccess (js ''secret''))]\<rparr>)"
    by (simp add: editFile_def fs_readFile_def sample_world_def sample_tree_def slice2_def
        slice1_def slice_index_def Let_def is_high_surrogate_def is_low_surrogate_def
        indexOf_empty toWellFormed_lone_js)
  have e1: "fst (editFile [js ''src'', js ''b.txt''] [] [0xD800] sample_world) = Inr ()"
    by (simp only: ed fst_conv)
  have wf: "isWellFormed (0xFFFD # js ''hello world'')"
    by (simp add: isWellFormed_Cons replacement_not_surrogate)
  have e2: "fst (readFile [js ''src'', js ''b.txt'']
            (snd (editFile [js ''src'', js ''b.txt''] [] [0xD800] sample_world)))
       = Inr ([0xFFFD] @ js ''hello world'')"
    unfolding ed using wf by (simp add: readFile_def fs_readFile_def toWellFormed_id)
  have ne: "[0xFFFD] @ js ''hello world'' \<noteq> [0xD800] @ js ''hello world''" by simp
  from guarded_read_ro refused sample_read_b e1 e2 ne show ?thesis by (intro conjI)
qed

section \<open>Writing a file\<close>










section \<open>Searching\<close>

lemma exec_from_None_iff:
  "exec_from m False S i = None \<longleftrightarrow> (\<forall>j. i \<le> j \<and> j \<le> length S \<longrightarrow> m S j = None)"
proof (induction m "False" S i rule: exec_from.induct)
  case (1 m S i)
  show ?case
  proof (cases "length S < i")
    case True
    then show ?thesis by (subst exec_from.simps) auto
  next
    case False
    show ?thesis
    proof (cases "m S i")
      case None
      have "exec_from m False S i = exec_from m False S (i + 1)"
        using False None by (subst exec_from.simps) simp
      also have "\<dots> = None \<longleftrightarrow> (\<forall>j. i + 1 \<le> j \<and> j \<le> length S \<longrightarrow> m S j = None)"
        using "1.hyps" [OF False None] by simp
      also have "\<dots> \<longleftrightarrow> (\<forall>j. i \<le> j \<and> j \<le> length S \<longrightarrow> m S j = None)"
        using None by (metis Suc_eq_plus1 Suc_leI le_neq_implies_less order.trans le_add1)
      finally show ?thesis .
    next
      case (Some e)
      have "exec_from m False S i = Some e" using False Some by (subst exec_from.simps) simp
      then show ?thesis using False Some by auto
    qed
  qed
qed

lemma has_match_iff: "has_match m S \<longleftrightarrow> (\<exists>j\<le>length S. m S j \<noteq> None)"
  unfolding has_match_def list_ex_iff by (auto simp: less_Suc_eq_le simp del: upt_Suc)

lemma exec_from_has_match: "exec_from m False S 0 \<noteq> None \<longleftrightarrow> has_match m S"
  by (simp add: exec_from_None_iff has_match_iff)

lemma regexp_test_fresh:
  assumes "fresh regex"
  shows "fst (regexp_test regex S) = has_match (re_matcher regex) S"
    and "(snd (regexp_test regex S))\<lparr>lastIndex := 0\<rparr> = regex"
  using assms exec_from_has_match [of "re_matcher regex" S]
  by (auto simp: regexp_test_def fresh_def Let_def split: option.splits)

lemma search_lines_fresh:
  "fresh regex \<Longrightarrow>
     search_lines regex file lines start matches
       = (regex, matches @ line_matches (re_matcher regex) file lines start)"
proof (induction lines arbitrary: start matches)
  case Nil
  then show ?case by (simp add: line_matches_def)
next
  case (Cons l ls)
  obtain hit regex1 where t: "regexp_test regex l = (hit, regex1)" by (cases "regexp_test regex l")
  from regexp_test_fresh [OF Cons.prems, of l] t
  have hit: "hit = has_match (re_matcher regex) l" and r1: "regex1\<lparr>lastIndex := 0\<rparr> = regex"
    by simp_all
  show ?case
    using Cons.IH [OF Cons.prems] by (simp add: t r1 hit line_matches_def)
qed

lemma search_files_fresh:
  "fresh regex \<Longrightarrow>
     search_files r regex files matches
       = (regex, matches @ expected_matches (re_matcher regex) r files)"
proof (induction files arbitrary: matches)
  case Nil
  then show ?case by (simp add: expected_matches_def)
next
  case (Cons f fs)
  show ?case
  proof (cases "fs_readFile r f")
    case (Inl e)
    then show ?thesis using Cons.IH [OF Cons.prems] by (simp add: expected_matches_def)
  next
    case (Inr content)
    then show ?thesis using Cons.IH [OF Cons.prems] search_lines_fresh [OF Cons.prems]
      by (simp add: expected_matches_def)
  qed
qed

lemma searchInFiles_string:
  assumes "new_RegExp pat = Inr m" and "walk (fs w) (default_dir dirPath) [] = Inr files"
  shows "searchInFiles new_RegExp (PString pat) dirPath w
           = (Inr (expected_matches m (fs w) files), w)"
proof -
  have "fresh \<lparr>re_matcher = m, re_global = True, re_sticky = False, lastIndex = 0\<rparr>"
    by (simp add: fresh_def)
  from search_files_fresh [OF this, of "fs w" files "[]"] show ?thesis
    using assms by (simp add: searchInFiles_def)
qed

lemma searchInFiles_regexp:
  assumes "fresh regex" and "walk (fs w) (default_dir dirPath) [] = Inr files"
  shows "searchInFiles new_RegExp (PRegExp regex) dirPath w
           = (Inr (expected_matches (re_matcher regex) (fs w) files), w)"
  using search_files_fresh [OF assms(1), of "fs w" files "[]"] assms(2)
  by (simp add: searchInFiles_def)

lemma split_example:
  "split_lines (js (''foo bar'' @ [CHR 0x0A] @ ''baz'' @ [CHR 0x0A] @ ''foofoo''))
     = [js ''foo bar'', js ''baz'', js ''foofoo'']"
  by (simp add: split_lines_js)

lemma foo_hits:
  "has_match (literal_matcher (js ''foo'')) (js ''foo bar'')"
  "\<not> has_match (literal_matcher (js ''foo'')) (js ''baz'')"
  "has_match (literal_matcher (js ''foo'')) (js ''foofoo'')"
  by (simp_all add: has_match_def literal_matcher_def upt_rec)

lemma example_matches:
  "line_matches (literal_matcher (js ''foo'')) file [js ''foo bar'', js ''baz'', js ''foofoo''] 0
     = [\<lparr>match_file = file, match_line = 1, match_text = js ''foo bar''\<rparr>,
        \<lparr>match_file = file, match_line = 3, match_text = js ''foofoo''\<rparr>]"
  by (simp add: line_matches_def foo_hits)

lemma searchInFiles_example:
  assumes "new_RegExp (js ''foo'') = Inr (literal_matcher (js ''foo''))"
    and "walk (fs w) (default_dir dirPath) [] = Inr [file]"
    and "fs_readFile (fs w) file
           = Inr (js (''foo bar'' @ [CHR 0x0A] @ ''baz'' @ [CHR 0x0A] @ ''foofoo''))"
  shows "searchInFiles new_RegExp (PString (js ''foo'')) dirPath w
           = (Inr [\<lparr>match_file = file, match_line = 1, match_text = js ''foo bar''\<rparr>,
                   \<lparr>match_file = file, match_line = 3, match_text = js ''foofoo''\<rparr>], w)"
proof -
  have "searchInFiles new_RegExp (PString (js ''foo'')) dirPath w
      = (Inr (expected_matches (literal_matcher (js ''foo'')) (fs w) [file]), w)"
    using assms(1,2) by (rule searchInFiles_string)
  moreover have "expected_matches (literal_matcher (js ''foo'')) (fs w) [file]
      = [\<lparr>match_file = file, match_line = 1, match_text = js ''foo bar''\<rparr>,
         \<lparr>match_file = file, match_line = 3, match_text = js ''foofoo''\<rparr>]"
    using assms(3) example_matches split_example
    by (simp add: expected_matches_def)
  ultimately show ?thesis by simp
qed

lemma walk_sample:
  "walk sample_tree [] [] = Inr [[js ''a.txt''], [js ''src'', js ''b.txt''], [js ''locked'']]"
  by (simp add: walk.simps fs_readdir_def sample_tree_def path_join_def)

lemma walk_one_file:
  "walk (fs one_file_world) (default_dir (Some [])) [] = Inr [[js ''notes.txt'']]"
  by (simp add: walk.simps fs_readdir_def one_file_world_def default_dir_def path_join_def)

lemma read_one_file:
  "fs_readFile (fs one_file_world) [js ''notes.txt'']
     = Inr (js (''foo bar'' @ [CHR 0x0A] @ ''baz'' @ [CHR 0x0A] @ ''foofoo''))"
  by (simp add: fs_readFile_def one_file_world_def)

lemma literal_foo: "literal_RegExp (js ''foo'') = Inr (literal_matcher (js ''foo''))"
  by (simp add: literal_RegExp_def syntax_characters_def js_def)

lemma stale_tests:
  "regexp_test \<lparr>re_matcher = literal_matcher (js ''foo''), re_global = True, re_sticky = False,
                lastIndex = 5\<rparr> (js ''foo bar'')
     = (False, \<lparr>re_matcher = literal_matcher (js ''foo''), re_global = True, re_sticky = False,
                lastIndex = 0\<rparr>)"
  "regexp_test \<lparr>re_matcher = literal_matcher (js ''foo''), re_global = True, re_sticky = False,
                lastIndex = 0\<rparr> (js ''baz'')
     = (False, \<lparr>re_matcher = literal_matcher (js ''foo''), re_global = True, re_sticky = False,
                lastIndex = 0\<rparr>)"
  "regexp_test \<lparr>re_matcher = literal_matcher (js ''foo''), re_global = True, re_sticky = False,
                lastIndex = 0\<rparr> (js ''foofoo'')
     = (True, \<lparr>re_matcher = literal_matcher (js ''foo''), re_global = True, re_sticky = False,
               lastIndex = 3\<rparr>)"
  by (simp_all add: regexp_test_def exec_from.simps literal_matcher_def)

text \<open>
  Claim C9. A search tests every line of every readable file on its own and sets the
  match position back to 0 after each test, but not before the first one. For a pattern
  string the result is exactly the hit lines: for the pattern \<^verbatim>\<open>foo\<close> and a tree whose
  one file holds the lines \<^verbatim>\<open>foo bar\<close>, \<^verbatim>\<open>baz\<close>, \<^verbatim>\<open>foofoo\<close>, the two matches at lines 1
  and 3. For the expression \<^verbatim>\<open>/foo/g\<close> handed in with \<^verbatim>\<open>lastIndex\<close> 5, the first test
  starts at index 5 of the first line, and the match in line 1 is skipped: the result is
  the match at line 3 only, while the hit lines are lines 1 and 3.
\<close>

theorem searchInFiles_stale_lastIndex:
  "searchInFiles literal_RegExp
      (PRegExp \<lparr>re_matcher = literal_matcher (js ''foo''), re_global = True, re_sticky = False,
                 lastIndex = 5\<rparr>) (Some []) one_file_world
     = (Inr [\<lparr>match_file = [js ''notes.txt''], match_line = 3, match_text = js ''foofoo''\<rparr>],
        one_file_world)
   \<and> expected_matches (literal_matcher (js ''foo'')) (fs one_file_world) [[js ''notes.txt'']]
     = [\<lparr>match_file = [js ''notes.txt''], match_line = 1, match_text = js ''foo bar''\<rparr>,
        \<lparr>match_file = [js ''notes.txt''], match_line = 3, match_text = js ''foofoo''\<rparr>]
   \<and> searchInFiles literal_RegExp (PString (js ''foo'')) (Some []) one_file_world
     = (Inr [\<lparr>match_file = [js ''notes.txt''], match_line = 1, match_text = js ''foo bar''\<rparr>,
             \<lparr>match_file = [js ''notes.txt''], match_line = 3, match_text = js ''foofoo''\<rparr>],
        one_file_world)"
proof -
  have stale: "searchInFiles literal_RegExp
      (PRegExp \<lparr>re_matcher = literal_matcher (js ''foo''), re_global = True, re_sticky = False,
                 lastIndex = 5\<rparr>) (Some []) one_file_world
     = (Inr [\<lparr>match_file = [js ''notes.txt''], match_line = 3, match_text = js ''foofoo''\<rparr>],
        one_file_world)"
    by (simp add: searchInFiles_def walk_one_file read_one_file split_lines_js stale_tests)
  have expected: "expected_matches (literal_matcher (js ''foo'')) (fs one_file_world) [[js ''notes.txt'']]
     = [\<lparr>match_file = [js ''notes.txt''], match_line = 1, match_text = js ''foo bar''\<rparr>,
        \<lparr>match_file = [js ''notes.txt''], match_line = 3, match_text = js ''foofoo''\<rparr>]"
    by (simp add: expected_matches_def read_one_file split_lines_js example_matches)
  have string: "searchInFiles literal_RegExp (PString (js ''foo'')) (Some []) one_file_world
     = (Inr [\<lparr>match_file = [js ''notes.txt''], match_line = 1, match_text = js ''foo bar''\<rparr>,
             \<lparr>match_file = [js ''notes.txt''], match_line = 3, match_text = js ''foofoo''\<rparr>],
        one_file_world)"
    using literal_foo walk_one_file read_one_file by (rule searchInFiles_example)
  from stale expected string show ?thesis by (intro conjI)
qed

section \<open>The dispatcher and the loop\<close>

lemma simple_resolve_js:
  "simple_resolve (js s) = map js (filter (\<lambda>x. x \<noteq> [] \<and> x \<noteq> ''.'') (split_on CHR ''/'' s))"
  by (simp add: simple_resolve_def split_on_js filter_map comp_def)

subsection \<open>One call of the inner loop\<close>

lemma dispatch_Inr:
  "dispatch rt uses trs lg w = (Inr results, lg', w') \<Longrightarrow>
     map tool_use_id results = map tool_use_id trs @ map tu_id uses
     \<and> map log_name lg' = map log_name lg @ map tu_name uses"
proof (induction uses arbitrary: trs lg w)
  case Nil
  then show ?case by simp
next
  case (Cons tu rest)
  obtain out w1 where rt: "runTool rt (tu_name tu) (normalizeToolInput (tu_input tu)) w = (out, w1)"
    by (cases "runTool rt (tu_name tu) (normalizeToolInput (tu_input tu)) w")
  show ?case
  proof (cases out)
    case (Inl e)
    with Cons.prems rt show ?thesis by (simp add: Let_def)
  next
    case (Inr v)
    with Cons.prems rt obtain tr le where
      d: "dispatch rt rest (trs @ [tr]) (lg @ [le]) w1 = (Inr results, lg', w')"
      and tr: "tool_use_id tr = tu_id tu" and le: "log_name le = tu_name tu"
      by (auto simp: Let_def)
    from Cons.IH [OF d] tr le show ?thesis by simp
  qed
qed

lemma dispatch_Inl:
  "dispatch rt uses trs lg w = (Inl e, lg', w') \<Longrightarrow>
     \<exists>done. prefix done uses \<and> done \<noteq> uses
       \<and> map log_name lg' = map log_name lg @ map tu_name done"
proof (induction uses arbitrary: trs lg w)
  case Nil
  then show ?case by simp
next
  case (Cons tu rest)
  obtain out w1 where rt: "runTool rt (tu_name tu) (normalizeToolInput (tu_input tu)) w = (out, w1)"
    by (cases "runTool rt (tu_name tu) (normalizeToolInput (tu_input tu)) w")
  show ?case
  proof (cases out)
    case (Inl e')
    with Cons.prems rt have "lg' = lg" by (simp add: Let_def)
    then have "prefix [] (tu # rest) \<and> [] \<noteq> tu # rest
        \<and> map log_name lg' = map log_name lg @ map tu_name []" by simp
    then show ?thesis by blast
  next
    case (Inr v)
    with Cons.prems rt obtain tr le where
      d: "dispatch rt rest (trs @ [tr]) (lg @ [le]) w1 = (Inl e, lg', w')"
      and le: "log_name le = tu_name tu"
      by (auto simp: Let_def)
    from Cons.IH [OF d] obtain dn where "prefix dn rest" "dn \<noteq> rest"
      "map log_name lg' = map log_name (lg @ [le]) @ map tu_name dn" by blast
    then have "prefix (tu # dn) (tu # rest) \<and> tu # dn \<noteq> tu # rest
        \<and> map log_name lg' = map log_name lg @ map tu_name (tu # dn)"
      using le by simp
    then show ?thesis by blast
  qed
qed

lemma dispatch_first_failure:
  assumes "dispatch rt before trs lg w = (Inr results, lg1, w1)"
    and "runTool rt (tu_name toolUse) (normalizeToolInput (tu_input toolUse)) w1 = (Inl e, w2)"
  shows "dispatch rt (before @ toolUse # after) trs lg w = (Inl e, lg1, w2)"
  using assms
proof (induction before arbitrary: trs lg w)
  case Nil
  then show ?case by (simp add: Let_def)
next
  case (Cons tu rest)
  obtain out w' where rt: "runTool rt (tu_name tu) (normalizeToolInput (tu_input tu)) w = (out, w')"
    by (cases "runTool rt (tu_name tu) (normalizeToolInput (tu_input tu)) w")
  show ?case
  proof (cases out)
    case (Inl e')
    with Cons.prems rt show ?thesis by (simp add: Let_def)
  next
    case (Inr v)
    with Cons.prems(1) rt obtain tr le where
      d: "dispatch rt rest (trs @ [tr]) (lg @ [le]) w' = (Inr results, lg1, w1)"
      and step: "\<And>xs. dispatch rt (tu # xs) trs lg w = dispatch rt xs (trs @ [tr]) (lg @ [le]) w'"
      by (auto simp: Let_def)
    from Cons.IH [OF d Cons.prems(2)] step [of "rest @ toolUse # after"] show ?thesis by simp
  qed
qed

subsection \<open>One round of the loop\<close>

lemma loop_limit: "\<not> i < 6 \<Longrightarrow> runWithTools_from rt i st = (Inr (js ''Tool loop limit reached''), st)"
  by (subst runWithTools_from.simps) simp

lemma loop_service_fails:
  "i < 6 \<Longrightarrow> messages_create rt (messages st) (world st) = (Inl e, w1) \<Longrightarrow>
     runWithTools_from rt i st = (Inl e, st\<lparr>rounds := rounds st + 1, world := w1\<rparr>)"
  by (subst runWithTools_from.simps) simp

lemma loop_final_answer:
  "i < 6 \<Longrightarrow> messages_create rt (messages st) (world st) = (Inr response, w1) \<Longrightarrow>
     toolUses_of response = [] \<Longrightarrow>
     runWithTools_from rt i st
       = (Inr (text_of response),
          st\<lparr>rounds := rounds st + 1, responses := responses st @ [response], world := w1\<rparr>)"
  by (subst runWithTools_from.simps) (simp add: Let_def)

lemma loop_tool_fails:
  "i < 6 \<Longrightarrow> messages_create rt (messages st) (world st) = (Inr response, w1) \<Longrightarrow>
     toolUses_of response \<noteq> [] \<Longrightarrow>
     dispatch rt (toolUses_of response) [] (tool_log st) w1 = (Inl e, lg, w2) \<Longrightarrow>
     runWithTools_from rt i st
       = (Inl e,
          st\<lparr>rounds := rounds st + 1, responses := responses st @ [response],
             tool_log := lg, world := w2\<rparr>)"
  by (subst runWithTools_from.simps) (simp add: Let_def)

lemma loop_next_round:
  "i < 6 \<Longrightarrow> messages_create rt (messages st) (world st) = (Inr response, w1) \<Longrightarrow>
     toolUses_of response \<noteq> [] \<Longrightarrow>
     dispatch rt (toolUses_of response) [] (tool_log st) w1 = (Inr toolResults, lg, w2) \<Longrightarrow>
     runWithTools_from rt i st
       = runWithTools_from rt (i + 1)
           (st\<lparr>rounds := rounds st + 1, responses := responses st @ [response],
               messages := messages st
                   @ [Message Assistant (Blocks response), Message User (ToolResults toolResults)],
               tool_log := lg, world := w2\<rparr>)"
  by (subst runWithTools_from.simps) (simp add: Let_def)

text \<open>A rule for the loop: a property \<open>Q\<close> of the outcome follows from an invariant \<open>I\<close> of
  the state at the head of a round.\<close>

lemma loop_rule:
  assumes init: "I i st"
    and limit: "\<And>i st. I i st \<Longrightarrow> \<not> i < 6 \<Longrightarrow> Q (Inr (js ''Tool loop limit reached''), st)"
    and service: "\<And>i st e w1. I i st \<Longrightarrow> i < 6 \<Longrightarrow>
        messages_create rt (messages st) (world st) = (Inl e, w1) \<Longrightarrow>
        Q (Inl e, st\<lparr>rounds := rounds st + 1, world := w1\<rparr>)"
    and final: "\<And>i st response w1. I i st \<Longrightarrow> i < 6 \<Longrightarrow>
        messages_create rt (messages st) (world st) = (Inr response, w1) \<Longrightarrow>
        toolUses_of response = [] \<Longrightarrow>
        Q (Inr (text_of response),
           st\<lparr>rounds := rounds st + 1, responses := responses st @ [response], world := w1\<rparr>)"
    and tool: "\<And>i st response w1 e lg w2. I i st \<Longrightarrow> i < 6 \<Longrightarrow>
        messages_create rt (messages st) (world st) = (Inr response, w1) \<Longrightarrow>
        toolUses_of response \<noteq> [] \<Longrightarrow>
        dispatch rt (toolUses_of response) [] (tool_log st) w1 = (Inl e, lg, w2) \<Longrightarrow>
        Q (Inl e, st\<lparr>rounds := rounds st + 1, responses := responses st @ [response],
                     tool_log := lg, world := w2\<rparr>)"
    and next_round: "\<And>i st response w1 toolResults lg w2. I i st \<Longrightarrow> i < 6 \<Longrightarrow>
        messages_create rt (messages st) (world st) = (Inr response, w1) \<Longrightarrow>
        toolUses_of response \<noteq> [] \<Longrightarrow>
        dispatch rt (toolUses_of response) [] (tool_log st) w1 = (Inr toolResults, lg, w2) \<Longrightarrow>
        I (i + 1)
          (st\<lparr>rounds := rounds st + 1, responses := responses st @ [response],
              messages := messages st
                  @ [Message Assistant (Blocks response), Message User (ToolResults toolResults)],
              tool_log := lg, world := w2\<rparr>)"
  shows "Q (runWithTools_from rt i st)"
  using init
proof (induction "6 - i" arbitrary: i st)
  case 0
  then have "\<not> i < 6" by simp
  with limit [OF "0.prems"] show ?case by (simp add: loop_limit)
next
  case (Suc k)
  then have lt: "i < 6" by simp
  obtain out w1 where mc: "messages_create rt (messages st) (world st) = (out, w1)"
    by (cases "messages_create rt (messages st) (world st)")
  show ?case
  proof (cases out)
    case (Inl e)
    with mc service [OF Suc.prems lt] show ?thesis by (simp add: loop_service_fails [OF lt])
  next
    case (Inr response)
    with mc have mc': "messages_create rt (messages st) (world st) = (Inr response, w1)" by simp
    show ?thesis
    proof (cases "toolUses_of response = []")
      case True
      from final [OF Suc.prems lt mc' True] show ?thesis
        by (simp add: loop_final_answer [OF lt mc' True])
    next
      case False
      obtain dout lg w2 where d: "dispatch rt (toolUses_of response) [] (tool_log st) w1 = (dout, lg, w2)"
        by (cases "dispatch rt (toolUses_of response) [] (tool_log st) w1") auto
      show ?thesis
      proof (cases dout)
        case (Inl e)
        with d have d': "dispatch rt (toolUses_of response) [] (tool_log st) w1 = (Inl e, lg, w2)"
          by simp
        from tool [OF Suc.prems lt mc' False d'] show ?thesis
          by (simp add: loop_tool_fails [OF lt mc' False d'])
      next
        case (Inr toolResults)
        with d have d': "dispatch rt (toolUses_of response) [] (tool_log st) w1
            = (Inr toolResults, lg, w2)" by simp
        have k: "k = 6 - (i + 1)" using Suc.hyps(2) by simp
        from Suc.hyps(1) [OF k next_round [OF Suc.prems lt mc' False d']] show ?thesis
          by (simp add: loop_next_round [OF lt mc' False d'])
      qed
    qed
  qed
qed

lemma results_follow_requests_snoc:
  "results_follow_requests
       (turns @ [Message Assistant (Blocks response), Message User (ToolResults results)])
     \<longleftrightarrow> results_follow_requests turns
         \<and> map tool_use_id results = map tu_id (toolUses_of response)"
  by (induction turns rule: results_follow_requests.induct) auto

lemma loop_answer:
  "answer_of_trace (fst (runWithTools rt prompt w))
     (responses (snd (runWithTools rt prompt w)))"
  unfolding runWithTools_def
proof (rule loop_rule [where
      I = "\<lambda>i st. i \<le> 6 \<and> length (responses st) = i \<and> list_all (\<lambda>r. toolUses_of r \<noteq> []) (responses st)"
      and Q = "\<lambda>res. answer_of_trace (fst res) (responses (snd res))"])
qed (auto simp: answer_of_trace_def)

lemma loop_rounds:
  "rounds (snd (runWithTools rt prompt w)) \<le> 6
   \<and> (case fst (runWithTools rt prompt w) of
        Inl e \<Rightarrow> length (responses (snd (runWithTools rt prompt w)))
                  \<le> rounds (snd (runWithTools rt prompt w))
      | Inr t \<Rightarrow> length (responses (snd (runWithTools rt prompt w)))
                  = rounds (snd (runWithTools rt prompt w)))"
  unfolding runWithTools_def
proof (rule loop_rule [where
      I = "\<lambda>i st. i \<le> 6 \<and> rounds st = i \<and> length (responses st) = i"
      and Q = "\<lambda>res. rounds (snd res) \<le> 6
                \<and> (case fst res of
                     Inl e \<Rightarrow> length (responses (snd res)) \<le> rounds (snd res)
                   | Inr t \<Rightarrow> length (responses (snd res)) = rounds (snd res))"])
qed auto

lemma loop_conversation:
  "(\<exists>turns. messages (snd (runWithTools rt prompt w)) = Message User (Text prompt) # turns
        \<and> results_follow_requests turns)
   \<and> prefix (map log_name (tool_log (snd (runWithTools rt prompt w))))
        (requested_names (responses (snd (runWithTools rt prompt w))))
   \<and> (case fst (runWithTools rt prompt w) of
        Inl e \<Rightarrow> True
      | Inr t \<Rightarrow> map log_name (tool_log (snd (runWithTools rt prompt w)))
                  = requested_names (responses (snd (runWithTools rt prompt w))))"
  unfolding runWithTools_def
proof (rule loop_rule [where
      I = "\<lambda>i st. (\<exists>turns. messages st = Message User (Text prompt) # turns
                        \<and> results_follow_requests turns)
                   \<and> map log_name (tool_log st) = requested_names (responses st)"
      and Q = "\<lambda>res. (\<exists>turns. messages (snd res) = Message User (Text prompt) # turns
                        \<and> results_follow_requests turns)
                \<and> prefix (map log_name (tool_log (snd res))) (requested_names (responses (snd res)))
                \<and> (case fst res of
                     Inl e \<Rightarrow> True
                   | Inr t \<Rightarrow> map log_name (tool_log (snd res))
                               = requested_names (responses (snd res)))"])
  show "(\<exists>turns. messages \<lparr>messages = [Message User (Text prompt)], tool_log = [], rounds = 0,
            responses = [], world = w\<rparr> = Message User (Text prompt) # turns
          \<and> results_follow_requests turns)
      \<and> map log_name (tool_log \<lparr>messages = [Message User (Text prompt)], tool_log = [],
            rounds = 0, responses = [], world = w\<rparr>)
          = requested_names (responses \<lparr>messages = [Message User (Text prompt)], tool_log = [],
            rounds = 0, responses = [], world = w\<rparr>)"
    by (simp add: requested_names_def)
next
  fix i and st :: "'a run_state" and response w1 e lg w2
  assume I: "(\<exists>turns. messages st = Message User (Text prompt) # turns
                        \<and> results_follow_requests turns)
                   \<and> map log_name (tool_log st) = requested_names (responses st)"
    and d: "dispatch rt (toolUses_of response) [] (tool_log st) w1 = (Inl e, lg, w2)"
  from dispatch_Inl [OF d] obtain dn where "prefix dn (toolUses_of response)"
    and lg: "map log_name lg = map log_name (tool_log st) @ map tu_name dn" by blast
  then have "prefix (map tu_name dn) (map tu_name (toolUses_of response))"
    by (auto simp: prefix_def)
  with I lg show "(\<exists>turns. messages (snd (Inl e, st\<lparr>rounds := rounds st + 1,
            responses := responses st @ [response], tool_log := lg, world := w2\<rparr>))
            = Message User (Text prompt) # turns \<and> results_follow_requests turns)
      \<and> prefix (map log_name (tool_log (snd (Inl e, st\<lparr>rounds := rounds st + 1,
            responses := responses st @ [response], tool_log := lg, world := w2\<rparr>))))
          (requested_names (responses (snd (Inl e, st\<lparr>rounds := rounds st + 1,
            responses := responses st @ [response], tool_log := lg, world := w2\<rparr>))))
      \<and> (case fst (Inl e, st\<lparr>rounds := rounds st + 1,
            responses := responses st @ [response], tool_log := lg, world := w2\<rparr>) of
           Inl e \<Rightarrow> True
         | Inr t \<Rightarrow> map log_name (tool_log (snd (Inl e, st\<lparr>rounds := rounds st + 1,
            responses := responses st @ [response], tool_log := lg, world := w2\<rparr>)))
             = requested_names (responses (snd (Inl e, st\<lparr>rounds := rounds st + 1,
            responses := responses st @ [response], tool_log := lg, world := w2\<rparr>))))"
    by (simp add: requested_names_def)
next
  fix i and st :: "'a run_state" and response w1 toolResults lg w2
  assume I: "(\<exists>turns. messages st = Message User (Text prompt) # turns
                        \<and> results_follow_requests turns)
                   \<and> map log_name (tool_log st) = requested_names (responses st)"
    and d: "dispatch rt (toolUses_of response) [] (tool_log st) w1 = (Inr toolResults, lg, w2)"
  from dispatch_Inr [OF d] have ids: "map tool_use_id toolResults = map tu_id (toolUses_of response)"
    and lg: "map log_name lg = map log_name (tool_log st) @ map tu_name (toolUses_of response)"
    by simp_all
  from I obtain turns where m: "messages st = Message User (Text prompt) # turns"
    and r: "results_follow_requests turns" by blast
  have "results_follow_requests
      (turns @ [Message Assistant (Blocks response), Message User (ToolResults toolResults)])"
    using r ids by (simp add: results_follow_requests_snoc)
  with m I lg show "(\<exists>turns. messages (st\<lparr>rounds := rounds st + 1,
          responses := responses st @ [response],
          messages := messages st
            @ [Message Assistant (Blocks response), Message User (ToolResults toolResults)],
          tool_log := lg, world := w2\<rparr>) = Message User (Text prompt) # turns
        \<and> results_follow_requests turns)
      \<and> map log_name (tool_log (st\<lparr>rounds := rounds st + 1,
          responses := responses st @ [response],
          messages := messages st
            @ [Message Assistant (Blocks response), Message User (ToolResults toolResults)],
          tool_log := lg, world := w2\<rparr>))
        = requested_names (responses (st\<lparr>rounds := rounds st + 1,
          responses := responses st @ [response],
          messages := messages st
            @ [Message Assistant (Blocks response), Message User (ToolResults toolResults)],
          tool_log := lg, world := w2\<rparr>))"
    by (simp add: requested_names_def)
qed (auto simp: requested_names_def)

lemma sample_run:
  "runWithTools (sample_runtime (scripted_service look_then_answer)) (js ''go'') sample_world
     = (Inr (js ''It says hello world.''),
        \<lparr>messages =
           [Message User (Text (js ''go'')),
            Message Assistant (Blocks (look_then_answer ! 0)),
            Message User (ToolResults
              [\<lparr>tool_use_id = js ''t1'', result_content = js ''a.txt src/ locked ''\<rparr>,
               \<lparr>tool_use_id = js ''t2'', result_content = js ''hello world''\<rparr>])],
         tool_log =
           [\<lparr>log_name = js ''listDir'', log_input = JObject [], log_output = js ''a.txt src/ locked ''\<rparr>,
            \<lparr>log_name = js ''readFile'', log_input = JObject [(js ''filePath'', JString (js ''src/b.txt''))],
             log_output = js ''hello world''\<rparr>],
         rounds = 2,
         responses = look_then_answer,
         world = sample_world\<rparr>)"
  by (simp add: runWithTools_def runWithTools_from.simps sample_runtime_def scripted_service_def
      look_then_answer_def toolUses_of_def text_of_def runTool_def listDir_def readFile_def
      fs_readdir_def fs_readFile_def default_dir_def simple_resolve_js sample_world_def
      sample_tree_def Let_def)

text \<open>
  Claim C3. An answer of the loop is the text of a response without tool calls, the last
  one received, every earlier response having a tool call; or it is the fixed message of
  the limit. So the text blocks of a response that holds a tool call are never returned.
\<close>

theorem text_only_without_tool_calls:
  assumes "fst (runWithTools rt prompt w) = Inr t"
  shows "(responses (snd (runWithTools rt prompt w)) \<noteq> []
          \<and> toolUses_of (last (responses (snd (runWithTools rt prompt w)))) = []
          \<and> t = text_of (last (responses (snd (runWithTools rt prompt w))))
          \<and> list_all (\<lambda>r. toolUses_of r \<noteq> [])
               (butlast (responses (snd (runWithTools rt prompt w)))))
       \<or> (t = js ''Tool loop limit reached''
          \<and> length (responses (snd (runWithTools rt prompt w))) = 6
          \<and> list_all (\<lambda>r. toolUses_of r \<noteq> []) (responses (snd (runWithTools rt prompt w))))"
  using loop_answer [of rt prompt w] assms by (simp add: answer_of_trace_def)

theorem text_only_without_tool_calls_witness:
  "fst (runWithTools (sample_runtime (scripted_service look_then_answer)) (js ''go'') sample_world)
     = Inr (js ''It says hello world.'')
   \<and> responses (snd (runWithTools (sample_runtime (scripted_service look_then_answer)) (js ''go'')
        sample_world)) = look_then_answer
   \<and> toolUses_of (last look_then_answer) = []
   \<and> (js ''It says hello world.'') = text_of (last look_then_answer)
   \<and> list_all (\<lambda>r. toolUses_of r \<noteq> []) (butlast look_then_answer)"
proof -
  let ?run = "runWithTools (sample_runtime (scripted_service look_then_answer)) (js ''go'') sample_world"
  have a: "fst ?run = Inr (js ''It says hello world.'')" by (simp add: sample_run)
  have r: "responses (snd ?run) = look_then_answer" by (simp add: sample_run)
  have n: "(js ''It says hello world.'') \<noteq> (js ''Tool loop limit reached'')" by simp
  from text_only_without_tool_calls [OF a] n
  have "toolUses_of (last (responses (snd ?run))) = []
      \<and> (js ''It says hello world.'') = text_of (last (responses (snd ?run)))
      \<and> list_all (\<lambda>r. toolUses_of r \<noteq> []) (butlast (responses (snd ?run)))"
    by blast
  with a r show ?thesis by simp
qed

lemma dispatch_append:
  "dispatch rt (xs @ ys) trs lg w =
     (case dispatch rt xs trs lg w of
        (Inl e, lg1, w1) \<Rightarrow> (Inl e, lg1, w1)
      | (Inr results, lg1, w1) \<Rightarrow> dispatch rt ys results lg1 w1)"
proof (induction xs arbitrary: trs lg w)
  case Nil
  then show ?case by simp
next
  case (Cons tu rest)
  obtain out w' where rt: "runTool rt (tu_name tu) (normalizeToolInput (tu_input tu)) w = (out, w')"
    by (cases "runTool rt (tu_name tu) (normalizeToolInput (tu_input tu)) w")
  show ?case
  proof (cases out)
    case (Inl e)
    with rt show ?thesis by (simp add: Let_def)
  next
    case (Inr v)
    with rt Cons.IH show ?thesis by (simp add: Let_def)
  qed
qed

text \<open>
  Claim C4. In a round whose tool calls all return, the tool results carry the
  identifiers of the requests, one for each and in the order of the requests, and the
  calls are logged in that order. Dispatch is sequential: the calls of a list are those
  of its first part, then those of the rest in the world and with the results the first
  part left, and none of the rest once a call of the first part has failed. So the
  conversation, after the prompt, is a sequence of rounds in which the user
  turn answers the tool calls of the assistant turn one for one and in order, and the
  names in the log are the requested names in order: all of them when the loop returns an
  answer, a prefix of them when it ends with an error.
\<close>

theorem tool_results_match_requests:
  "(\<forall>xs ys trs lg w1.
      dispatch rt (xs @ ys) trs lg w1 =
        (case dispatch rt xs trs lg w1 of
           (Inl e, lg1, w2) \<Rightarrow> (Inl e, lg1, w2)
         | (Inr results, lg1, w2) \<Rightarrow> dispatch rt ys results lg1 w2))
   \<and> (\<forall>uses lg w1 results lg' w2.
      dispatch rt uses [] lg w1 = (Inr results, lg', w2) \<longrightarrow>
        map tool_use_id results = map tu_id uses \<and> length results = length uses
        \<and> map log_name lg' = map log_name lg @ map tu_name uses)
   \<and> (\<exists>turns. messages (snd (runWithTools rt prompt w)) = Message User (Text prompt) # turns
        \<and> results_follow_requests turns)
   \<and> prefix (map log_name (tool_log (snd (runWithTools rt prompt w))))
        (requested_names (responses (snd (runWithTools rt prompt w))))
   \<and> (\<forall>t. fst (runWithTools rt prompt w) = Inr t \<longrightarrow>
        map log_name (tool_log (snd (runWithTools rt prompt w)))
          = requested_names (responses (snd (runWithTools rt prompt w))))"
proof (intro conjI allI impI)
  fix xs ys trs lg w1
  show "dispatch rt (xs @ ys) trs lg w1 =
        (case dispatch rt xs trs lg w1 of
           (Inl e, lg1, w2) \<Rightarrow> (Inl e, lg1, w2)
         | (Inr results, lg1, w2) \<Rightarrow> dispatch rt ys results lg1 w2)"
    by (rule dispatch_append)
next
  fix uses lg w1 results lg' w2
  assume d: "dispatch rt uses [] lg w1 = (Inr results, lg', w2)"
  from dispatch_Inr [OF d] show ids: "map tool_use_id results = map tu_id uses"
    and "map log_name lg' = map log_name lg @ map tu_name uses" by simp_all
  from ids show "length results = length uses" by (rule map_eq_imp_length_eq)
next
  show "\<exists>turns. messages (snd (runWithTools rt prompt w)) = Message User (Text prompt) # turns
        \<and> results_follow_requests turns"
    using loop_conversation [of rt prompt w] by blast
  show "prefix (map log_name (tool_log (snd (runWithTools rt prompt w))))
        (requested_names (responses (snd (runWithTools rt prompt w))))"
    using loop_conversation [of rt prompt w] by blast
next
  fix t assume "fst (runWithTools rt prompt w) = Inr t"
  then show "map log_name (tool_log (snd (runWithTools rt prompt w)))
          = requested_names (responses (snd (runWithTools rt prompt w)))"
    using loop_conversation [of rt prompt w] by simp
qed

theorem tool_results_match_requests_witness:
  "dispatch (sample_runtime (scripted_service look_then_answer))
       (toolUses_of (look_then_answer ! 0)) [] [] sample_world
     = (Inr [\<lparr>tool_use_id = js ''t1'', result_content = js ''a.txt src/ locked ''\<rparr>,
             \<lparr>tool_use_id = js ''t2'', result_content = js ''hello world''\<rparr>],
        [\<lparr>log_name = js ''listDir'', log_input = JObject [], log_output = js ''a.txt src/ locked ''\<rparr>,
         \<lparr>log_name = js ''readFile'', log_input = JObject [(js ''filePath'', JString (js ''src/b.txt''))],
          log_output = js ''hello world''\<rparr>],
        sample_world)
   \<and> map tu_id (toolUses_of (look_then_answer ! 0)) = [js ''t1'', js ''t2'']
   \<and> messages (snd (runWithTools (sample_runtime (scripted_service look_then_answer)) (js ''go'')
       sample_world))
     = [Message User (Text (js ''go'')),
        Message Assistant (Blocks (look_then_answer ! 0)),
        Message User (ToolResults
          [\<lparr>tool_use_id = js ''t1'', result_content = js ''a.txt src/ locked ''\<rparr>,
           \<lparr>tool_use_id = js ''t2'', result_content = js ''hello world''\<rparr>])]
   \<and> map log_name (tool_log (snd (runWithTools (sample_runtime (scripted_service look_then_answer))
        (js ''go'') sample_world))) = [js ''listDir'', js ''readFile'']
   \<and> requested_names (responses (snd (runWithTools
        (sample_runtime (scripted_service look_then_answer)) (js ''go'') sample_world)))
       = [js ''listDir'', js ''readFile'']"
proof -
  let ?rt = "sample_runtime (scripted_service look_then_answer)"
  let ?run = "runWithTools ?rt (js ''go'') sample_world"
  have d: "dispatch ?rt (toolUses_of (look_then_answer ! 0)) [] [] sample_world
     = (Inr [\<lparr>tool_use_id = js ''t1'', result_content = js ''a.txt src/ locked ''\<rparr>,
             \<lparr>tool_use_id = js ''t2'', result_content = js ''hello world''\<rparr>],
        [\<lparr>log_name = js ''listDir'', log_input = JObject [], log_output = js ''a.txt src/ locked ''\<rparr>,
         \<lparr>log_name = js ''readFile'', log_input = JObject [(js ''filePath'', JString (js ''src/b.txt''))],
          log_output = js ''hello world''\<rparr>],
        sample_world)"
    by (simp add: sample_runtime_def look_then_answer_def toolUses_of_def runTool_def
        listDir_def readFile_def fs_readdir_def fs_readFile_def default_dir_def
        simple_resolve_js sample_world_def sample_tree_def Let_def)
  note t = tool_results_match_requests [of ?rt "(js ''go'')" sample_world]
  from t d have "map tool_use_id
      [\<lparr>tool_use_id = js ''t1'', result_content = js ''a.txt src/ locked ''\<rparr>,
       \<lparr>tool_use_id = js ''t2'', result_content = js ''hello world''\<rparr>]
      = map tu_id (toolUses_of (look_then_answer ! 0))" by blast
  then have i: "map tu_id (toolUses_of (look_then_answer ! 0)) = [js ''t1'', js ''t2'']" by simp
  have a: "fst ?run = Inr (js ''It says hello world.'')" by (simp add: sample_run)
  have l: "map log_name (tool_log (snd ?run)) = [js ''listDir'', js ''readFile'']"
    by (simp add: sample_run)
  from t a have "map log_name (tool_log (snd ?run)) = requested_names (responses (snd ?run))"
    by blast
  with l have q: "requested_names (responses (snd ?run)) = [js ''listDir'', js ''readFile'']" by simp
  have m: "messages (snd ?run)
     = [Message User (Text (js ''go'')),
        Message Assistant (Blocks (look_then_answer ! 0)),
        Message User (ToolResults
          [\<lparr>tool_use_id = js ''t1'', result_content = js ''a.txt src/ locked ''\<rparr>,
           \<lparr>tool_use_id = js ''t2'', result_content = js ''hello world''\<rparr>])]"
    by (simp add: sample_run)
  from d i m l q show ?thesis by (intro conjI)
qed

text \<open>
  Claim C5. When the first response has no tool call, the loop returns in round 1: one
  request has been sent, no tool has been dispatched, the conversation is still the
  prompt alone, and the result is the text of the text blocks of that response, joined in
  order.
\<close>

theorem first_answer_without_tools:
  assumes "messages_create rt [Message User (Text prompt)] w = (Inr response, w1)"
    and "toolUses_of response = []"
  shows "runWithTools rt prompt w
           = (Inr (concat (map the_text (filter is_text response))),
              \<lparr>messages = [Message User (Text prompt)], tool_log = [], rounds = 1,
               responses = [response], world = w1\<rparr>)"
  using loop_final_answer [of 0 rt
      "\<lparr>messages = [Message User (Text prompt)], tool_log = [], rounds = 0,
        responses = [], world = w\<rparr>" response w1] assms
  by (simp add: runWithTools_def text_of_def)

theorem first_answer_without_tools_witness:
  "messages_create (sample_runtime (constant_service [TextBlock (js ''4''), OtherBlock, TextBlock (js ''2'')]))
       [Message User (Text (js ''6 * 7?''))] sample_world
     = (Inr [TextBlock (js ''4''), OtherBlock, TextBlock (js ''2'')], sample_world)
   \<and> toolUses_of [TextBlock (js ''4''), OtherBlock, TextBlock (js ''2'')] = []
   \<and> runWithTools (sample_runtime (constant_service [TextBlock (js ''4''), OtherBlock, TextBlock (js ''2'')]))
        (js ''6 * 7?'') sample_world
     = (Inr (js ''42''),
        \<lparr>messages = [Message User (Text (js ''6 * 7?''))], tool_log = [], rounds = 1,
         responses = [[TextBlock (js ''4''), OtherBlock, TextBlock (js ''2'')]], world = sample_world\<rparr>)"
proof -
  have m: "messages_create
       (sample_runtime (constant_service [TextBlock (js ''4''), OtherBlock, TextBlock (js ''2'')]))
       [Message User (Text (js ''6 * 7?''))] sample_world
     = (Inr [TextBlock (js ''4''), OtherBlock, TextBlock (js ''2'')], sample_world)"
    by (simp add: sample_runtime_def constant_service_def)
  have u: "toolUses_of [TextBlock (js ''4''), OtherBlock, TextBlock (js ''2'')] = []"
    by (simp add: toolUses_of_def)
  from first_answer_without_tools [OF m u] m u show ?thesis by simp
qed

subsection \<open>Failures of a tool call\<close>

lemma tool_names_eq:
  "tool_names = [js ''readFile'', js ''writeFile'', js ''editFile'', js ''listDir'',
                 js ''searchInFiles'', js ''runCommand'']"
  by (simp add: tool_names_def tools_def)

lemma required_arguments_simps:
  "required_arguments (js ''readFile'') = [js ''filePath'']"
  "required_arguments (js ''writeFile'') = [js ''filePath'', js ''content'']"
  "required_arguments (js ''editFile'') = [js ''filePath'', js ''oldText'', js ''newText'']"
  "required_arguments (js ''listDir'') = []"
  "required_arguments (js ''searchInFiles'') = [js ''pattern'']"
  "required_arguments (js ''runCommand'') = [js ''command'']"
  by (simp_all add: required_arguments_def tools_def)

lemma required_arguments_unknown: "name \<notin> set tool_names \<Longrightarrow> required_arguments name = []"
  by (auto simp: required_arguments_def tools_def tool_names_def)

lemma requireString_cases:
  "requireString v n = (if is_string v then Inr (the_string v) else Inl (Error (js ''Invalid '' @ n)))"
  by (cases v) simp_all

lemma runTool_unknown:
  "name \<notin> set tool_names \<Longrightarrow>
     runTool rt name toolInput w = (Inl (Error (js ''Unknown tool: '' @ name)), w)"
  by (simp add: runTool_def tool_names_eq)

lemma runTool_invalid:
  assumes "first_invalid name toolInput = Some k"
  shows "runTool rt name toolInput w = (Inl (Error (js ''Invalid '' @ k)), w)"
proof -
  consider "name = js ''readFile''" | "name = js ''writeFile''" | "name = js ''editFile''"
    | "name = js ''listDir''" | "name = js ''searchInFiles''" | "name = js ''runCommand''"
    | "name \<notin> set tool_names"
    by (auto simp: tool_names_eq)
  then show ?thesis
  proof cases
    case 1
    with assms show ?thesis
      by (auto simp: first_invalid_def required_arguments_simps runTool_def requireString_cases
          split: if_splits)
  next
    case 2
    with assms show ?thesis
      by (auto simp: first_invalid_def required_arguments_simps runTool_def requireString_cases
          split: if_splits)
  next
    case 3
    with assms show ?thesis
      by (auto simp: first_invalid_def required_arguments_simps runTool_def requireString_cases
          split: if_splits)
  next
    case 4
    with assms show ?thesis by (simp add: first_invalid_def required_arguments_simps)
  next
    case 5
    with assms show ?thesis
      by (auto simp: first_invalid_def required_arguments_simps runTool_def requireString_cases
          split: if_splits)
  next
    case 6
    with assms show ?thesis
      by (auto simp: first_invalid_def required_arguments_simps runTool_def requireString_cases
          split: if_splits)
  next
    case 7
    with assms show ?thesis by (simp add: first_invalid_def required_arguments_unknown)
  qed
qed

lemma runTool_readFile_fails:
  "get_property toolInput (js ''filePath'') = JString filePath \<Longrightarrow>
   readFile (resolve_path rt filePath) w = (Inl e, w') \<Longrightarrow>
     runTool rt (js ''readFile'') toolInput w = (Inl e, w')"
  by (simp add: runTool_def)

lemma runTool_writeFile_fails:
  "get_property toolInput (js ''filePath'') = JString filePath \<Longrightarrow>
   get_property toolInput (js ''content'') = JString content \<Longrightarrow>
   writeFile (resolve_path rt filePath) content w = (Inl e, w') \<Longrightarrow>
     runTool rt (js ''writeFile'') toolInput w = (Inl e, w')"
  by (simp add: runTool_def)

lemma runTool_editFile_fails:
  "get_property toolInput (js ''filePath'') = JString filePath \<Longrightarrow>
   get_property toolInput (js ''oldText'') = JString oldText \<Longrightarrow>
   get_property toolInput (js ''newText'') = JString newText \<Longrightarrow>
   editFile (resolve_path rt filePath) oldText newText w = (Inl e, w') \<Longrightarrow>
     runTool rt (js ''editFile'') toolInput w = (Inl e, w')"
  by (simp add: runTool_def)

lemma runTool_listDir_fails:
  "(if is_string (get_property toolInput (js ''dirPath''))
    then listDir (Some (resolve_path rt (the_string (get_property toolInput (js ''dirPath''))))) w
    else listDir None w) = (Inl e, w') \<Longrightarrow>
     runTool rt (js ''listDir'') toolInput w = (Inl e, w')"
  by (simp add: runTool_def)

lemma runTool_searchInFiles_fails:
  "get_property toolInput (js ''pattern'') = JString pat \<Longrightarrow>
   (if is_string (get_property toolInput (js ''dirPath''))
    then searchInFiles (RegExp_new rt) (PString pat)
           (Some (resolve_path rt (the_string (get_property toolInput (js ''dirPath''))))) w
    else searchInFiles (RegExp_new rt) (PString pat) None w) = (Inl e, w') \<Longrightarrow>
     runTool rt (js ''searchInFiles'') toolInput w = (Inl e, w')"
  by (simp add: runTool_def)

lemma runTool_runCommand_fails:
  "get_property toolInput (js ''command'') = JString command \<Longrightarrow>
   execAsync rt command
     (if is_object (get_property toolInput (js ''options''))
      then get_property toolInput (js ''options'') else JObject []) w = (Inl e, w') \<Longrightarrow>
     runTool rt (js ''runCommand'') toolInput w = (Inl e, w')"
  by (cases "is_object (get_property toolInput (js ''options''))")
    (simp_all add: runTool_def runCommand_def Let_def)

lemma readFile_fails:
  "fs_readFile (fs w) p = Inl en \<Longrightarrow> readFile p w = (Inl (SystemError en), w)"
  by (simp add: readFile_def)

lemma writeFile_mkdir_fails:
  "fs_mkdir (fs w) (path_dirname p) = Inl en \<Longrightarrow> writeFile p c w = (Inl (SystemError en), w)"
  by (simp add: writeFile_def)

lemma writeFile_write_fails:
  "fs_mkdir (fs w) (path_dirname p) = Inr r1 \<Longrightarrow> fs_writeFile r1 p c = Inl en \<Longrightarrow>
     writeFile p c w = (Inl (SystemError en), w\<lparr>fs := r1\<rparr>)"
  by (simp add: writeFile_def)

lemma editFile_absent:
  "fs_readFile (fs w) p = Inr c \<Longrightarrow> \<not> sublist oldText c \<Longrightarrow>
     editFile p oldText newText w = (Inl (Error (js ''oldText not found'')), w)"
  by (simp add: editFile_not_found indexOf_minus1_iff)

lemma editFile_write_refused:
  "fs_readFile (fs w) p = Inr c \<Longrightarrow> sublist oldText c \<Longrightarrow> \<not> writable (fs w) p \<Longrightarrow>
     editFile p oldText newText w = (Inl (SystemError EACCES), w)"
  by (simp add: editFile_refused indexOf_minus1_iff)

lemma listDir_fails:
  "fs_readdir (fs w) (default_dir dirPath) = Inl en \<Longrightarrow>
     listDir dirPath w = (Inl (SystemError en), w)"
  by (simp add: listDir_def)

lemma searchInFiles_compile_fails:
  "new_RegExp pat = Inl e \<Longrightarrow> searchInFiles new_RegExp (PString pat) dirPath w = (Inl e, w)"
  by (simp add: searchInFiles_def)

lemma searchInFiles_walk_fails:
  "new_RegExp pat = Inr m \<Longrightarrow> fs_readdir (fs w) (default_dir dirPath) = Inl en \<Longrightarrow>
     searchInFiles new_RegExp (PString pat) dirPath w = (Inl (SystemError en), w)"
  by (simp add: searchInFiles_def walk.simps)

lemma search_files_skips:
  "fs_readFile r f = Inl en \<Longrightarrow>
     search_files r regex (f # rest) matches = search_files r regex rest matches"
  by simp

lemma runCommand_fails:
  "exec command (case options of None \<Rightarrow> JObject [] | Some opts \<Rightarrow> opts) w = (Inl e, w') \<Longrightarrow>
     runCommand exec command options w = (Inl e, w')"
  by (simp add: runCommand_def)

lemma loop_first_failure:
  assumes "i < 6"
    and "messages_create rt (messages st) (world st) = (Inr response, w1)"
    and "toolUses_of response = before @ toolUse # after"
    and "dispatch rt before [] (tool_log st) w1 = (Inr results, lg, w2)"
    and "runTool rt (tu_name toolUse) (normalizeToolInput (tu_input toolUse)) w2 = (Inl e, w3)"
  shows "runWithTools_from rt i st
           = (Inl e, st\<lparr>rounds := rounds st + 1, responses := responses st @ [response],
                        tool_log := lg, world := w3\<rparr>)"
proof -
  from assms(3) have ne: "toolUses_of response \<noteq> []" by simp
  from dispatch_first_failure [OF assms(4) assms(5), of after] assms(3)
  have "dispatch rt (toolUses_of response) [] (tool_log st) w1 = (Inl e, lg, w3)" by simp
  from loop_tool_fails [OF assms(1) assms(2) ne this] show ?thesis .
qed

text \<open>
  Claim C1, as amended. A failure of a tool call is thrown by the dispatcher and is not
  caught by the loop. \<^verbatim>\<open>runTool\<close> throws \<^verbatim>\<open>Unknown tool\<close> for a name that is not
  registered, and \<^verbatim>\<open>Invalid k\<close> for the first required argument \<open>k\<close> of the tool that is
  missing or not a string; with its required arguments given, each of the six tools
  throws what its library function throws. The library functions throw the error of a
  file-system call that fails (reading, creating the directories, writing, listing), the
  error \<^verbatim>\<open>oldText not found\<close>, the error of the regular-expression engine, and the error
  of the command; only a file that cannot be read during a search is skipped. When a call
  of a round throws, the calls before it having returned, \<^verbatim>\<open>runWithTools\<close> ends with
  that error: the conversation is the one at the head of the round, with no tool result
  for the call, the log holds the calls before it only, and no further round runs.
\<close>

theorem tool_failure_ends_loop:
  "(name \<notin> set tool_names \<longrightarrow>
      runTool rt name toolInput w = (Inl (Error (js ''Unknown tool: '' @ name)), w))
   \<and> (first_invalid name toolInput = Some k \<longrightarrow>
      runTool rt name toolInput w = (Inl (Error (js ''Invalid '' @ k)), w))
   \<and> (get_property toolInput (js ''filePath'') = JString filePath
        \<and> readFile (resolve_path rt filePath) w = (Inl e, w') \<longrightarrow>
      runTool rt (js ''readFile'') toolInput w = (Inl e, w'))
   \<and> (get_property toolInput (js ''filePath'') = JString filePath
        \<and> get_property toolInput (js ''content'') = JString content
        \<and> writeFile (resolve_path rt filePath) content w = (Inl e, w') \<longrightarrow>
      runTool rt (js ''writeFile'') toolInput w = (Inl e, w'))
   \<and> (get_property toolInput (js ''filePath'') = JString filePath
        \<and> get_property toolInput (js ''oldText'') = JString oldText
        \<and> get_property toolInput (js ''newText'') = JString newText
        \<and> editFile (resolve_path rt filePath) oldText newText w = (Inl e, w') \<longrightarrow>
      runTool rt (js ''editFile'') toolInput w = (Inl e, w'))
   \<and> ((if is_string (get_property toolInput (js ''dirPath''))
        then listDir (Some (resolve_path rt (the_string (get_property toolInput (js ''dirPath''))))) w
        else listDir None w) = (Inl e, w') \<longrightarrow>
      runTool rt (js ''listDir'') toolInput w = (Inl e, w'))
   \<and> (get_property toolInput (js ''pattern'') = JString pat
        \<and> (if is_string (get_property toolInput (js ''dirPath''))
           then searchInFiles (RegExp_new rt) (PString pat)
                  (Some (resolve_path rt (the_string (get_property toolInput (js ''dirPath''))))) w
           else searchInFiles (RegExp_new rt) (PString pat) None w) = (Inl e, w') \<longrightarrow>
      runTool rt (js ''searchInFiles'') toolInput w = (Inl e, w'))
   \<and> (get_property toolInput (js ''command'') = JString command
        \<and> execAsync rt command
             (if is_object (get_property toolInput (js ''options''))
              then get_property toolInput (js ''options'') else JObject []) w = (Inl e, w') \<longrightarrow>
      runTool rt (js ''runCommand'') toolInput w = (Inl e, w'))
   \<and> (fs_readFile (fs w) p = Inl en \<longrightarrow> readFile p w = (Inl (SystemError en), w))
   \<and> (fs_mkdir (fs w) (path_dirname p) = Inl en \<longrightarrow>
      writeFile p c w = (Inl (SystemError en), w))
   \<and> (fs_mkdir (fs w) (path_dirname p) = Inr r1 \<and> fs_writeFile r1 p c = Inl en \<longrightarrow>
      writeFile p c w = (Inl (SystemError en), w\<lparr>fs := r1\<rparr>))
   \<and> (fs_readFile (fs w) p = Inl en \<longrightarrow>
      editFile p oldText newText w = (Inl (SystemError en), w))
   \<and> (fs_readFile (fs w) p = Inr c \<and> \<not> sublist oldText c \<longrightarrow>
      editFile p oldText newText w = (Inl (Error (js ''oldText not found'')), w))
   \<and> (fs_readFile (fs w) p = Inr c \<and> sublist oldText c \<and> \<not> writable (fs w) p \<longrightarrow>
      editFile p oldText newText w = (Inl (SystemError EACCES), w))
   \<and> (fs_readdir (fs w) (default_dir dirPath) = Inl en \<longrightarrow>
      listDir dirPath w = (Inl (SystemError en), w))
   \<and> (new_RegExp pat = Inl e \<longrightarrow>
      searchInFiles new_RegExp (PString pat) dirPath w = (Inl e, w))
   \<and> (new_RegExp pat = Inr m \<and> fs_readdir (fs w) (default_dir dirPath) = Inl en \<longrightarrow>
      searchInFiles new_RegExp (PString pat) dirPath w = (Inl (SystemError en), w))
   \<and> (fs_readFile r f = Inl en \<longrightarrow>
      search_files r regex (f # rest) matches = search_files r regex rest matches)
   \<and> (exec command (case options of None \<Rightarrow> JObject [] | Some opts \<Rightarrow> opts) w = (Inl e, w') \<longrightarrow>
      runCommand exec command options w = (Inl e, w'))
   \<and> (i < 6
        \<and> messages_create rt (messages st) (world st) = (Inr response, w1)
        \<and> toolUses_of response = before @ toolUse # after
        \<and> dispatch rt before [] (tool_log st) w1 = (Inr results, lg, w2)
        \<and> runTool rt (tu_name toolUse) (normalizeToolInput (tu_input toolUse)) w2 = (Inl e, w3) \<longrightarrow>
      runWithTools_from rt i st
        = (Inl e, st\<lparr>rounds := rounds st + 1, responses := responses st @ [response],
                     tool_log := lg, world := w3\<rparr>))"
proof -
  note dispatcher = runTool_unknown [of name rt toolInput w]
    runTool_invalid [of name toolInput k rt w]
    runTool_readFile_fails [of toolInput filePath rt w e w']
    runTool_writeFile_fails [of toolInput filePath content rt w e w']
    runTool_editFile_fails [of toolInput filePath oldText newText rt w e w']
    runTool_listDir_fails [of toolInput rt w e w']
    runTool_searchInFiles_fails [of toolInput pat rt w e w']
    runTool_runCommand_fails [of toolInput command rt w e w']
  note library = readFile_fails [of w p en] writeFile_mkdir_fails [of w p en c]
    writeFile_write_fails [of w p r1 c en] editFile_unreadable [of w p en oldText newText]
    editFile_absent [of w p c oldText newText] editFile_write_refused [of w p c oldText newText]
    listDir_fails [of w dirPath en] searchInFiles_compile_fails [of new_RegExp pat e dirPath w]
    searchInFiles_walk_fails [of new_RegExp pat m w dirPath en]
    search_files_skips [of r f en regex rest matches]
    runCommand_fails [of exec command options w e w']
  note loop = loop_first_failure [of i rt st response w1 before toolUse after results lg w2 e w3]
  show ?thesis
    by (intro conjI impI; (elim conjE)?; (rule dispatcher library loop; assumption))
qed

text \<open>
  Claim C1 as stated fails: the failure does not become a tool result. \<^verbatim>\<open>readFile\<close>
  requested without a \<^verbatim>\<open>filePath\<close> ends the loop in round 1 with the error, although the
  service had an answer ready for the next round.
\<close>

theorem tool_failure_ends_loop_counterexample:
  "runWithTools (sample_runtime (scripted_service read_without_path)) (js ''go'') sample_world
     = (Inl (Error (js ''Invalid filePath'')),
        \<lparr>messages = [Message User (Text (js ''go''))], tool_log = [], rounds = 1,
         responses = [[ToolUseBlock \<lparr>tu_id = js ''t1'', tu_name = js ''readFile'',
                                     tu_input = JObject []\<rparr>]],
         world = sample_world\<rparr>)"
  by (simp add: runWithTools_def runWithTools_from.simps sample_runtime_def scripted_service_def
      read_without_path_def toolUses_of_def runTool_def Let_def)

theorem tool_failure_ends_loop_witness:
  "js ''deploy'' \<notin> set tool_names
   \<and> runTool (sample_runtime (scripted_service read_without_path)) (js ''deploy'') (JObject [])
        sample_world = (Inl (Error (js ''Unknown tool: deploy'')), sample_world)
   \<and> first_invalid (js ''writeFile'') (JObject [(js ''filePath'', JString (js ''x.txt''))])
        = Some (js ''content'')
   \<and> runTool (sample_runtime (scripted_service read_without_path)) (js ''writeFile'')
        (JObject [(js ''filePath'', JString (js ''x.txt''))]) sample_world
        = (Inl (Error (js ''Invalid content'')), sample_world)
   \<and> runTool (sample_runtime (scripted_service read_without_path)) (js ''readFile'')
        (JObject [(js ''filePath'', JString (js ''nope.txt''))]) sample_world
        = (Inl (SystemError ENOENT), sample_world)
   \<and> runTool (sample_runtime (scripted_service read_without_path)) (js ''writeFile'')
        (JObject [(js ''filePath'', JString (js ''src'')), (js ''content'', JString (js ''x''))])
        sample_world = (Inl (SystemError EISDIR), sample_world)
   \<and> runTool (sample_runtime (scripted_service read_without_path)) (js ''editFile'')
        (JObject [(js ''filePath'', JString (js ''src/b.txt'')), (js ''oldText'', JString (js ''bye'')),
                  (js ''newText'', JString (js ''hi''))]) sample_world
        = (Inl (Error (js ''oldText not found'')), sample_world)
   \<and> runTool (sample_runtime (scripted_service read_without_path)) (js ''listDir'')
        (JObject [(js ''dirPath'', JString (js ''a.txt''))]) sample_world
        = (Inl (SystemError ENOTDIR), sample_world)
   \<and> runTool (sample_runtime (scripted_service read_without_path)) (js ''searchInFiles'')
        (JObject [(js ''pattern'', JString (js ''a(''))]) sample_world
        = (Inl (SyntaxError (js ''a('')), sample_world)
   \<and> runTool (sample_runtime (scripted_service read_without_path)) (js ''runCommand'')
        (JObject [(js ''command'', JString (js ''exit 1''))]) sample_world
        = (Inl (ExecError (js ''Command failed'') [] []), sample_world)
   \<and> readFile [js ''nope.txt''] sample_world = (Inl (SystemError ENOENT), sample_world)
   \<and> writeFile [js ''a.txt'', js ''x''] (js ''x'') sample_world
        = (Inl (SystemError EEXIST), sample_world)
   \<and> writeFile [js ''src''] (js ''x'') sample_world = (Inl (SystemError EISDIR), sample_world)
   \<and> editFile [js ''locked''] (js ''a'') (js ''b'') sample_world
        = (Inl (SystemError EACCES), sample_world)
   \<and> editFile [js ''src'', js ''b.txt''] (js ''bye'') (js ''hi'') sample_world
        = (Inl (Error (js ''oldText not found'')), sample_world)
   \<and> editFile [js ''ro.txt''] (js ''o'') (js ''0'') guarded_world
        = (Inl (SystemError EACCES), guarded_world)
   \<and> listDir (Some [js ''a.txt'']) sample_world = (Inl (SystemError ENOTDIR), sample_world)
   \<and> searchInFiles literal_RegExp (PString (js ''a('')) None sample_world
        = (Inl (SyntaxError (js ''a('')), sample_world)
   \<and> searchInFiles literal_RegExp (PString (js ''foo'')) (Some [js ''nope'']) sample_world
        = (Inl (SystemError ENOENT), sample_world)
   \<and> search_files sample_tree
        \<lparr>re_matcher = literal_matcher (js ''e''), re_global = True, re_sticky = False,
          lastIndex = 0\<rparr> [[js ''locked'']] []
        = (\<lparr>re_matcher = literal_matcher (js ''e''), re_global = True, re_sticky = False,
             lastIndex = 0\<rparr>, [])
   \<and> runCommand (execAsync (sample_runtime (scripted_service read_without_path)))
        (js ''exit 1'') None sample_world
        = (Inl (ExecError (js ''Command failed'') [] []), sample_world)
   \<and> runWithTools_from (sample_runtime (scripted_service read_without_path)) 0
        \<lparr>messages = [Message User (Text (js ''go''))], tool_log = [], rounds = 0, responses = [],
         world = sample_world\<rparr>
       = (Inl (Error (js ''Invalid filePath'')),
          \<lparr>messages = [Message User (Text (js ''go''))], tool_log = [], rounds = 1,
           responses = [[ToolUseBlock \<lparr>tu_id = js ''t1'', tu_name = js ''readFile'',
                                       tu_input = JObject []\<rparr>]],
           world = sample_world\<rparr>)"
proof -
  let ?rt = "sample_runtime (scripted_service read_without_path)"
  let ?tu = "\<lparr>tu_id = js ''t1'', tu_name = js ''readFile'', tu_input = JObject []\<rparr>"
  let ?st = "\<lparr>messages = [Message User (Text (js ''go''))], tool_log = [], rounds = 0,
              responses = [], world = sample_world\<rparr>"
  let ?re = "\<lparr>re_matcher = literal_matcher (js ''e''), re_global = True, re_sticky = False,
              lastIndex = 0\<rparr>"
  have h1: "js ''deploy'' \<notin> set tool_names" by (simp add: tool_names_eq)
  have c1: "runTool ?rt (js ''deploy'') (JObject []) sample_world
      = (Inl (Error (js ''Unknown tool: deploy'')), sample_world)"
    using tool_failure_ends_loop [where name = "js ''deploy''" and rt = ?rt and toolInput = "JObject []"
        and w = sample_world,
        THEN conjunct1] h1 by simp
  have h2: "first_invalid (js ''writeFile'') (JObject [(js ''filePath'', JString (js ''x.txt''))])
      = Some (js ''content'')"
    by (simp add: first_invalid_def required_arguments_simps)
  have c2: "runTool ?rt (js ''writeFile'') (JObject [(js ''filePath'', JString (js ''x.txt''))])
      sample_world = (Inl (Error (js ''Invalid content'')), sample_world)"
    using tool_failure_ends_loop [where name = "js ''writeFile''" and rt = ?rt and k = "js ''content''"
        and toolInput = "JObject [(js ''filePath'', JString (js ''x.txt''))]"
        and w = sample_world,
        THEN conjunct2, THEN conjunct1] h2 by simp
  have l1: "readFile [js ''nope.txt''] sample_world = (Inl (SystemError ENOENT), sample_world)"
    using tool_failure_ends_loop [where w = sample_world and p = "[js ''nope.txt'']" and en = ENOENT,
        THEN conjunct2, THEN conjunct2, THEN conjunct2, THEN conjunct2, THEN conjunct2,
        THEN conjunct2, THEN conjunct2, THEN conjunct2, THEN conjunct1]
    by (simp add: fs_readFile_def sample_world_def sample_tree_def)
  have c3: "runTool ?rt (js ''readFile'') (JObject [(js ''filePath'', JString (js ''nope.txt''))])
      sample_world = (Inl (SystemError ENOENT), sample_world)"
    using tool_failure_ends_loop [where toolInput = "JObject [(js ''filePath'', JString (js ''nope.txt''))]"
        and filePath = "js ''nope.txt''" and rt = ?rt and w = sample_world
        and e = "SystemError ENOENT" and w' = sample_world,
        THEN conjunct2, THEN conjunct2, THEN conjunct1] l1
    by (simp add: sample_runtime_def simple_resolve_js)
  have l2: "writeFile [js ''a.txt'', js ''x''] (js ''x'') sample_world
      = (Inl (SystemError EEXIST), sample_world)"
    using tool_failure_ends_loop [where w = sample_world and p = "[js ''a.txt'', js ''x'']" and en = EEXIST
        and c = "js ''x''",
        THEN conjunct2, THEN conjunct2, THEN conjunct2, THEN conjunct2, THEN conjunct2,
        THEN conjunct2, THEN conjunct2, THEN conjunct2, THEN conjunct2, THEN conjunct1]
    by (simp add: path_dirname_def sample_world_def sample_tree_def)
  have l3: "writeFile [js ''src''] (js ''x'') sample_world = (Inl (SystemError EISDIR), sample_world)"
    using tool_failure_ends_loop [where w = sample_world and p = "[js ''src'']" and en = EISDIR
        and c = "js ''x''" and ?r1.0 = sample_tree,
        THEN conjunct2, THEN conjunct2, THEN conjunct2, THEN conjunct2, THEN conjunct2,
        THEN conjunct2, THEN conjunct2, THEN conjunct2, THEN conjunct2, THEN conjunct2,
        THEN conjunct1]
    by (simp add: path_dirname_def sample_world_def sample_tree_def)
  have c4: "runTool ?rt (js ''writeFile'')
      (JObject [(js ''filePath'', JString (js ''src'')), (js ''content'', JString (js ''x''))])
      sample_world = (Inl (SystemError EISDIR), sample_world)"
    using tool_failure_ends_loop [where toolInput = "JObject [(js ''filePath'', JString (js ''src'')),
                                           (js ''content'', JString (js ''x''))]"
        and filePath = "js ''src''" and content = "js ''x''" and rt = ?rt and w = sample_world
        and e = "SystemError EISDIR" and w' = sample_world,
        THEN conjunct2, THEN conjunct2, THEN conjunct2, THEN conjunct1] l3
    by (simp add: sample_runtime_def simple_resolve_js)
  have l4: "editFile [js ''locked''] (js ''a'') (js ''b'') sample_world
      = (Inl (SystemError EACCES), sample_world)"
    using tool_failure_ends_loop [where w = sample_world and p = "[js ''locked'']" and en = EACCES
        and oldText = "js ''a''" and newText = "js ''b''",
        THEN conjunct2, THEN conjunct2, THEN conjunct2, THEN conjunct2, THEN conjunct2,
        THEN conjunct2, THEN conjunct2, THEN conjunct2, THEN conjunct2, THEN conjunct2,
        THEN conjunct2, THEN conjunct1]
    by (simp add: fs_readFile_def sample_world_def sample_tree_def)
  have ns: "\<not> sublist (js ''bye'') (js ''hello world'')"
    using indexOf_minus1_iff [of "js ''hello world''" "js ''bye''"] by simp
  have l5: "editFile [js ''src'', js ''b.txt''] (js ''bye'') (js ''hi'') sample_world
      = (Inl (Error (js ''oldText not found'')), sample_world)"
    using tool_failure_ends_loop [where w = sample_world and p = "[js ''src'', js ''b.txt'']"
        and c = "js ''hello world''" and oldText = "js ''bye''" and newText = "js ''hi''",
        THEN conjunct2, THEN conjunct2, THEN conjunct2, THEN conjunct2, THEN conjunct2,
        THEN conjunct2, THEN conjunct2, THEN conjunct2, THEN conjunct2, THEN conjunct2,
        THEN conjunct2, THEN conjunct2, THEN conjunct1] ns
    by (simp add: fs_readFile_def sample_world_def sample_tree_def)
  have l6: "editFile [js ''ro.txt''] (js ''o'') (js ''0'') guarded_world
      = (Inl (SystemError EACCES), guarded_world)"
    using tool_failure_ends_loop [where w = guarded_world and p = "[js ''ro.txt'']"
        and c = "js ''hello world''" and oldText = "js ''o''" and newText = "js ''0''",
        THEN conjunct2, THEN conjunct2, THEN conjunct2, THEN conjunct2, THEN conjunct2,
        THEN conjunct2, THEN conjunct2, THEN conjunct2, THEN conjunct2, THEN conjunct2,
        THEN conjunct2, THEN conjunct2, THEN conjunct2, THEN conjunct1]
      o_in_hello guarded_not_writable_ro
    by (simp add: fs_readFile_def guarded_world_def)
  have c5: "runTool ?rt (js ''editFile'')
      (JObject [(js ''filePath'', JString (js ''src/b.txt'')), (js ''oldText'', JString (js ''bye'')),
                (js ''newText'', JString (js ''hi''))]) sample_world
      = (Inl (Error (js ''oldText not found'')), sample_world)"
    using tool_failure_ends_loop [where toolInput = "JObject [(js ''filePath'', JString (js ''src/b.txt'')),
          (js ''oldText'', JString (js ''bye'')), (js ''newText'', JString (js ''hi''))]"
        and filePath = "js ''src/b.txt''" and oldText = "js ''bye''" and newText = "js ''hi''"
        and rt = ?rt and w = sample_world and e = "Error (js ''oldText not found'')"
        and w' = sample_world,
        THEN conjunct2, THEN conjunct2, THEN conjunct2, THEN conjunct2, THEN conjunct1] l5
    by (simp add: sample_runtime_def simple_resolve_js)
  have l7: "listDir (Some [js ''a.txt'']) sample_world = (Inl (SystemError ENOTDIR), sample_world)"
    using tool_failure_ends_loop [where w = sample_world and dirPath = "Some [js ''a.txt'']" and en = ENOTDIR,
        THEN conjunct2, THEN conjunct2, THEN conjunct2, THEN conjunct2, THEN conjunct2,
        THEN conjunct2, THEN conjunct2, THEN conjunct2, THEN conjunct2, THEN conjunct2,
        THEN conjunct2, THEN conjunct2, THEN conjunct2, THEN conjunct2, THEN conjunct1]
    by (simp add: fs_readdir_def default_dir_def sample_world_def sample_tree_def)
  have c6: "runTool ?rt (js ''listDir'') (JObject [(js ''dirPath'', JString (js ''a.txt''))])
      sample_world = (Inl (SystemError ENOTDIR), sample_world)"
    using tool_failure_ends_loop [where toolInput = "JObject [(js ''dirPath'', JString (js ''a.txt''))]"
        and rt = ?rt and w = sample_world and e = "SystemError ENOTDIR" and w' = sample_world,
        THEN conjunct2, THEN conjunct2, THEN conjunct2, THEN conjunct2, THEN conjunct2,
        THEN conjunct1] l7
    by (simp add: sample_runtime_def simple_resolve_js)
  have bad: "literal_RegExp (js ''a('') = Inl (SyntaxError (js ''a(''))"
    by (simp add: literal_RegExp_def syntax_characters_def js_def)
  have l8: "searchInFiles literal_RegExp (PString (js ''a('')) None sample_world
      = (Inl (SyntaxError (js ''a('')), sample_world)"
    using tool_failure_ends_loop [where new_RegExp = literal_RegExp and pat = "js ''a(''"
        and e = "SyntaxError (js ''a('')" and dirPath = None and w = sample_world,
        THEN conjunct2, THEN conjunct2, THEN conjunct2, THEN conjunct2, THEN conjunct2,
        THEN conjunct2, THEN conjunct2, THEN conjunct2, THEN conjunct2, THEN conjunct2,
        THEN conjunct2, THEN conjunct2, THEN conjunct2, THEN conjunct2, THEN conjunct2,
        THEN conjunct1] bad
    by simp
  have l9: "searchInFiles literal_RegExp (PString (js ''foo'')) (Some [js ''nope'']) sample_world
      = (Inl (SystemError ENOENT), sample_world)"
    using tool_failure_ends_loop [where new_RegExp = literal_RegExp and pat = "js ''foo''"
        and m = "literal_matcher (js ''foo'')" and dirPath = "Some [js ''nope'']"
        and w = sample_world and en = ENOENT,
        THEN conjunct2, THEN conjunct2, THEN conjunct2, THEN conjunct2, THEN conjunct2,
        THEN conjunct2, THEN conjunct2, THEN conjunct2, THEN conjunct2, THEN conjunct2,
        THEN conjunct2, THEN conjunct2, THEN conjunct2, THEN conjunct2, THEN conjunct2,
        THEN conjunct2, THEN conjunct1] literal_foo
    by (simp add: fs_readdir_def default_dir_def sample_world_def sample_tree_def)
  have c7: "runTool ?rt (js ''searchInFiles'') (JObject [(js ''pattern'', JString (js ''a(''))])
      sample_world = (Inl (SyntaxError (js ''a('')), sample_world)"
    using tool_failure_ends_loop [where toolInput = "JObject [(js ''pattern'', JString (js ''a(''))]"
        and pat = "js ''a(''" and rt = ?rt and w = sample_world
        and e = "SyntaxError (js ''a('')" and w' = sample_world,
        THEN conjunct2, THEN conjunct2, THEN conjunct2, THEN conjunct2, THEN conjunct2,
        THEN conjunct2, THEN conjunct1] l8
    by (simp add: sample_runtime_def)
  have c8: "runTool ?rt (js ''runCommand'') (JObject [(js ''command'', JString (js ''exit 1''))])
      sample_world = (Inl (ExecError (js ''Command failed'') [] []), sample_world)"
    using tool_failure_ends_loop [where toolInput = "JObject [(js ''command'', JString (js ''exit 1''))]"
        and command = "js ''exit 1''" and rt = ?rt and w = sample_world
        and e = "ExecError (js ''Command failed'') [] []" and w' = sample_world,
        THEN conjunct2, THEN conjunct2, THEN conjunct2, THEN conjunct2, THEN conjunct2,
        THEN conjunct2, THEN conjunct2, THEN conjunct1]
    by (simp add: sample_runtime_def)
  have l10: "search_files sample_tree ?re [[js ''locked'']] [] = (?re, [])"
    using tool_failure_ends_loop [where r = sample_tree and f = "[js ''locked'']" and en = EACCES and regex = ?re
        and rest = "[]" and matches = "[]",
        THEN conjunct2, THEN conjunct2, THEN conjunct2, THEN conjunct2, THEN conjunct2,
        THEN conjunct2, THEN conjunct2, THEN conjunct2, THEN conjunct2, THEN conjunct2,
        THEN conjunct2, THEN conjunct2, THEN conjunct2, THEN conjunct2, THEN conjunct2,
        THEN conjunct2, THEN conjunct2, THEN conjunct1]
    by (simp add: fs_readFile_def sample_tree_def)
  have l11: "runCommand (execAsync ?rt) (js ''exit 1'') None sample_world
      = (Inl (ExecError (js ''Command failed'') [] []), sample_world)"
    using tool_failure_ends_loop [where exec = "execAsync ?rt" and command = "js ''exit 1''" and options = None
        and w = sample_world and e = "ExecError (js ''Command failed'') [] []"
        and w' = sample_world,
        THEN conjunct2, THEN conjunct2, THEN conjunct2, THEN conjunct2, THEN conjunct2,
        THEN conjunct2, THEN conjunct2, THEN conjunct2, THEN conjunct2, THEN conjunct2,
        THEN conjunct2, THEN conjunct2, THEN conjunct2, THEN conjunct2, THEN conjunct2,
        THEN conjunct2, THEN conjunct2, THEN conjunct2, THEN conjunct1]
    by (simp add: sample_runtime_def)
  have h7: "messages_create ?rt (messages ?st) (world ?st) = (Inr [ToolUseBlock ?tu], sample_world)"
    by (simp add: sample_runtime_def scripted_service_def read_without_path_def)
  have h8: "toolUses_of [ToolUseBlock ?tu] = [] @ ?tu # []" by (simp add: toolUses_of_def)
  have h9: "dispatch ?rt [] [] (tool_log ?st) sample_world = (Inr [], [], sample_world)" by simp
  have h10: "runTool ?rt (tu_name ?tu) (normalizeToolInput (tu_input ?tu)) sample_world
      = (Inl (Error (js ''Invalid filePath'')), sample_world)"
    by (simp add: runTool_def)
  have h0: "(0::nat) < 6" by simp
  have c9: "runWithTools_from ?rt 0 ?st
      = (Inl (Error (js ''Invalid filePath'')),
         ?st\<lparr>rounds := rounds ?st + 1, responses := responses ?st @ [[ToolUseBlock ?tu]],
              tool_log := [], world := sample_world\<rparr>)"
    using tool_failure_ends_loop [where i = 0 and rt = ?rt and st = ?st and response = "[ToolUseBlock ?tu]"
        and ?w1.0 = sample_world and before = "[]" and toolUse = ?tu and after = "[]"
        and results = "[]" and lg = "[]" and ?w2.0 = sample_world
        and e = "Error (js ''Invalid filePath'')" and ?w3.0 = sample_world,
        THEN conjunct2, THEN conjunct2, THEN conjunct2, THEN conjunct2, THEN conjunct2,
        THEN conjunct2, THEN conjunct2, THEN conjunct2, THEN conjunct2, THEN conjunct2,
        THEN conjunct2, THEN conjunct2, THEN conjunct2, THEN conjunct2, THEN conjunct2,
        THEN conjunct2, THEN conjunct2, THEN conjunct2, THEN conjunct2]
      h0 h7 h8 h9 h10 by blast
  then have c9': "runWithTools_from ?rt 0 ?st
      = (Inl (Error (js ''Invalid filePath'')),
          \<lparr>messages = [Message User (Text (js ''go''))], tool_log = [], rounds = 1,
           responses = [[ToolUseBlock ?tu]], world = sample_world\<rparr>)" by simp
  from h1 c1 h2 c2 c3 c4 c5 c6 c7 c8 l1 l2 l3 l4 l5 l6 l7 l8 l9 l10 l11 c9'
  show ?thesis by (intro conjI)
qed

lemma loop_always_tools:
  assumes art: "always_requests_tools rt"
  shows "case fst (runWithTools rt prompt w) of
           Inl e \<Rightarrow> length (tool_log (snd (runWithTools rt prompt w)))
                     < length (requested_names (responses (snd (runWithTools rt prompt w))))
         | Inr t \<Rightarrow> list_all (\<lambda>r. toolUses_of r \<noteq> [])
                      (responses (snd (runWithTools rt prompt w)))"
  unfolding runWithTools_def
proof (rule loop_rule [where
      I = "\<lambda>i st. list_all (\<lambda>r. toolUses_of r \<noteq> []) (responses st)
                   \<and> length (tool_log st) = length (requested_names (responses st))"
      and Q = "\<lambda>res. case fst res of
                        Inl e \<Rightarrow> length (tool_log (snd res))
                                  < length (requested_names (responses (snd res)))
                      | Inr t \<Rightarrow> list_all (\<lambda>r. toolUses_of r \<noteq> []) (responses (snd res))"])
  fix i and st :: "'a run_state" and e w1
  assume "messages_create rt (messages st) (world st) = (Inl e, w1)"
  with art show "case fst (Inl e, st\<lparr>rounds := rounds st + 1, world := w1\<rparr>) of
      Inl e' \<Rightarrow> length (tool_log (snd (Inl e, st\<lparr>rounds := rounds st + 1, world := w1\<rparr>)))
                < length (requested_names
                    (responses (snd (Inl e, st\<lparr>rounds := rounds st + 1, world := w1\<rparr>))))
    | Inr t \<Rightarrow> list_all (\<lambda>r. toolUses_of r \<noteq> [])
                 (responses (snd (Inl e, st\<lparr>rounds := rounds st + 1, world := w1\<rparr>)))"
    unfolding always_requests_tools_def by (metis Inl_Inr_False prod.inject)
next
  fix i and st :: "'a run_state" and response w1
  assume "messages_create rt (messages st) (world st) = (Inr response, w1)"
    and "toolUses_of response = []"
  with art have False unfolding always_requests_tools_def by (metis Inr_inject prod.inject)
  then show "case fst (Inr (text_of response), st\<lparr>rounds := rounds st + 1,
        responses := responses st @ [response], world := w1\<rparr>) of
      Inl e \<Rightarrow> length (tool_log (snd (Inr (text_of response), st\<lparr>rounds := rounds st + 1,
        responses := responses st @ [response], world := w1\<rparr>)))
            < length (requested_names (responses (snd (Inr (text_of response),
                st\<lparr>rounds := rounds st + 1, responses := responses st @ [response],
                   world := w1\<rparr>))))
    | Inr t \<Rightarrow> list_all (\<lambda>r. toolUses_of r \<noteq> [])
        (responses (snd (Inr (text_of response), st\<lparr>rounds := rounds st + 1,
           responses := responses st @ [response], world := w1\<rparr>)))" ..
next
  fix i and st :: "'a run_state" and response w1 e lg w2
  assume I: "list_all (\<lambda>r. toolUses_of r \<noteq> []) (responses st)
                   \<and> length (tool_log st) = length (requested_names (responses st))"
    and d: "dispatch rt (toolUses_of response) [] (tool_log st) w1 = (Inl e, lg, w2)"
  from dispatch_Inl [OF d] obtain dn where p: "prefix dn (toolUses_of response)"
    and ne: "dn \<noteq> toolUses_of response"
    and lg: "map log_name lg = map log_name (tool_log st) @ map tu_name dn" by blast
  from p ne have "length dn < length (toolUses_of response)"
    by (auto simp: prefix_def)
  moreover from lg have "length lg = length (tool_log st) + length dn"
    by (metis length_append length_map)
  ultimately show "case fst (Inl e, st\<lparr>rounds := rounds st + 1,
        responses := responses st @ [response], tool_log := lg, world := w2\<rparr>) of
      Inl e' \<Rightarrow> length (tool_log (snd (Inl e, st\<lparr>rounds := rounds st + 1,
        responses := responses st @ [response], tool_log := lg, world := w2\<rparr>)))
            < length (requested_names (responses (snd (Inl e, st\<lparr>rounds := rounds st + 1,
        responses := responses st @ [response], tool_log := lg, world := w2\<rparr>))))
    | Inr t \<Rightarrow> list_all (\<lambda>r. toolUses_of r \<noteq> [])
        (responses (snd (Inl e, st\<lparr>rounds := rounds st + 1,
        responses := responses st @ [response], tool_log := lg, world := w2\<rparr>)))"
    using I by (simp add: requested_names_def)
next
  fix i and st :: "'a run_state" and response w1 toolResults lg w2
  assume I: "list_all (\<lambda>r. toolUses_of r \<noteq> []) (responses st)
                   \<and> length (tool_log st) = length (requested_names (responses st))"
    and ne: "toolUses_of response \<noteq> []"
    and d: "dispatch rt (toolUses_of response) [] (tool_log st) w1 = (Inr toolResults, lg, w2)"
  from dispatch_Inr [OF d]
  have "map log_name lg = map log_name (tool_log st) @ map tu_name (toolUses_of response)"
    by simp
  then have "length lg = length (tool_log st) + length (toolUses_of response)"
    by (metis length_append length_map)
  with I ne show "list_all (\<lambda>r. toolUses_of r \<noteq> [])
        (responses (st\<lparr>rounds := rounds st + 1, responses := responses st @ [response],
          messages := messages st
            @ [Message Assistant (Blocks response), Message User (ToolResults toolResults)],
          tool_log := lg, world := w2\<rparr>))
      \<and> length (tool_log (st\<lparr>rounds := rounds st + 1, responses := responses st @ [response],
          messages := messages st
            @ [Message Assistant (Blocks response), Message User (ToolResults toolResults)],
          tool_log := lg, world := w2\<rparr>))
        = length (requested_names (responses (st\<lparr>rounds := rounds st + 1,
          responses := responses st @ [response],
          messages := messages st
            @ [Message Assistant (Blocks response), Message User (ToolResults toolResults)],
          tool_log := lg, world := w2\<rparr>)))"
    by (simp add: requested_names_def)
qed (auto simp: requested_names_def)

text \<open>
  Claim C2, as amended. For every completion service the loop sends at most six
  requests. When every response of the service holds a tool call and no dispatched call
  fails, so that the loop returns an answer, it has sent exactly six requests and the
  answer is the fixed message of the limit. When a dispatched call fails the loop ends
  earlier, with the error of that call: the log is then shorter than the list of the
  requested calls.
\<close>

theorem loop_round_limit:
  "rounds (snd (runWithTools rt prompt w)) \<le> 6
   \<and> (always_requests_tools rt \<and> fst (runWithTools rt prompt w) = Inr t \<longrightarrow>
        t = js ''Tool loop limit reached''
        \<and> rounds (snd (runWithTools rt prompt w)) = 6
        \<and> length (responses (snd (runWithTools rt prompt w))) = 6)
   \<and> (always_requests_tools rt \<and> fst (runWithTools rt prompt w) = Inl e \<longrightarrow>
        length (tool_log (snd (runWithTools rt prompt w)))
          < length (requested_names (responses (snd (runWithTools rt prompt w)))))"
proof -
  let ?rs = "responses (snd (runWithTools rt prompt w))"
  have bound: "rounds (snd (runWithTools rt prompt w)) \<le> 6"
    using loop_rounds [of rt prompt w] by blast
  have limit: "t = js ''Tool loop limit reached''
        \<and> rounds (snd (runWithTools rt prompt w)) = 6 \<and> length ?rs = 6"
    if a: "always_requests_tools rt \<and> fst (runWithTools rt prompt w) = Inr t"
  proof -
    from a loop_always_tools [of rt prompt w] have all: "list_all (\<lambda>r. toolUses_of r \<noteq> []) ?rs"
      by simp
    from a loop_answer [of rt prompt w]
    have "(?rs \<noteq> [] \<and> toolUses_of (last ?rs) = [])
        \<or> (t = js ''Tool loop limit reached'' \<and> length ?rs = 6)"
      by (auto simp: answer_of_trace_def)
    moreover have "\<not> (?rs \<noteq> [] \<and> toolUses_of (last ?rs) = [])"
      using all by (auto simp: list_all_iff)
    ultimately have t: "t = js ''Tool loop limit reached''" and l: "length ?rs = 6" by blast+
    from a loop_rounds [of rt prompt w] l have "rounds (snd (runWithTools rt prompt w)) = 6"
      by simp
    with t l show ?thesis by simp
  qed
  have failure: "length (tool_log (snd (runWithTools rt prompt w))) < length (requested_names ?rs)"
    if "always_requests_tools rt \<and> fst (runWithTools rt prompt w) = Inl e"
    using that loop_always_tools [of rt prompt w] by simp
  from bound limit failure show ?thesis by blast
qed

lemma unknown_tool_always_requested:
  "always_requests_tools (sample_runtime (constant_service call_unknown))"
  by (simp add: always_requests_tools_def sample_runtime_def constant_service_def
      call_unknown_def toolUses_of_def)

lemma unknown_tool_run:
  "runWithTools (sample_runtime (constant_service call_unknown)) (js ''go'') sample_world
     = (Inl (Error (js ''Unknown tool: deploy'')),
        \<lparr>messages = [Message User (Text (js ''go''))], tool_log = [], rounds = 1,
         responses = [call_unknown], world = sample_world\<rparr>)"
  by (simp add: runWithTools_def runWithTools_from.simps sample_runtime_def
      constant_service_def call_unknown_def toolUses_of_def runTool_def Let_def)

text \<open>
  Claim C2 as stated fails: a service that always requests a tool does not make the loop
  run six rounds. When the requested tool is not registered, the loop ends in round 1
  with the error of the call.
\<close>

theorem loop_round_limit_counterexample:
  "always_requests_tools (sample_runtime (constant_service call_unknown))
   \<and> runWithTools (sample_runtime (constant_service call_unknown)) (js ''go'') sample_world
     = (Inl (Error (js ''Unknown tool: deploy'')),
        \<lparr>messages = [Message User (Text (js ''go''))], tool_log = [], rounds = 1,
         responses = [call_unknown], world = sample_world\<rparr>)"
  using unknown_tool_always_requested unknown_tool_run by (rule conjI)

lemma six_listings:
  "fst (runWithTools (sample_runtime (constant_service list_again)) (js ''go'') sample_world)
     = Inr (js ''Tool loop limit reached'')"
  by (simp add: runWithTools_def runWithTools_from.simps sample_runtime_def
      constant_service_def list_again_def toolUses_of_def runTool_def listDir_def
      fs_readdir_def default_dir_def sample_world_def sample_tree_def Let_def)

theorem loop_round_limit_witness:
  "always_requests_tools (sample_runtime (constant_service list_again))
   \<and> fst (runWithTools (sample_runtime (constant_service list_again)) (js ''go'') sample_world)
       = Inr (js ''Tool loop limit reached'')
   \<and> rounds (snd (runWithTools (sample_runtime (constant_service list_again)) (js ''go'')
        sample_world)) = 6
   \<and> length (responses (snd (runWithTools (sample_runtime (constant_service list_again)) (js ''go'')
        sample_world))) = 6
   \<and> always_requests_tools (sample_runtime (constant_service call_unknown))
   \<and> fst (runWithTools (sample_runtime (constant_service call_unknown)) (js ''go'') sample_world)
       = Inl (Error (js ''Unknown tool: deploy''))
   \<and> length (tool_log (snd (runWithTools (sample_runtime (constant_service call_unknown))
        (js ''go'') sample_world)))
       < length (requested_names (responses (snd (runWithTools
           (sample_runtime (constant_service call_unknown)) (js ''go'') sample_world))))"
proof -
  have a: "always_requests_tools (sample_runtime (constant_service list_again))"
    by (simp add: always_requests_tools_def sample_runtime_def constant_service_def
        list_again_def toolUses_of_def)
  have u: "fst (runWithTools (sample_runtime (constant_service call_unknown)) (js ''go'')
      sample_world) = Inl (Error (js ''Unknown tool: deploy''))"
    by (simp add: unknown_tool_run)
  note t = loop_round_limit [of "sample_runtime (constant_service list_again)" "(js ''go'')"
      sample_world "(js ''Tool loop limit reached'')"]
  note t' = loop_round_limit [of "sample_runtime (constant_service call_unknown)" "(js ''go'')"
      sample_world _ "Error (js ''Unknown tool: deploy'')"]
  from t a six_listings
  have six: "rounds (snd (runWithTools (sample_runtime (constant_service list_again)) (js ''go'')
        sample_world)) = 6
      \<and> length (responses (snd (runWithTools (sample_runtime (constant_service list_again))
           (js ''go'') sample_world))) = 6" by blast
  from t' unknown_tool_always_requested u
  have short: "length (tool_log (snd (runWithTools (sample_runtime (constant_service call_unknown))
        (js ''go'') sample_world)))
       < length (requested_names (responses (snd (runWithTools
           (sample_runtime (constant_service call_unknown)) (js ''go'') sample_world))))" by blast
  from a six_listings six unknown_tool_always_requested u short show ?thesis by (intro conjI) simp_all
qed

end
